theory Spec2Isabelle
  imports Complex_Main "HOL-Library.Word"
begin

section \<open>The photo alignment script \<^verbatim>\<open>faces/align.py\<close>\<close>

text \<open>
  The script aligns portrait photographs on five landmark points and averages them.
  Its numbers are Python and numpy floating-point values; here every coordinate and
  every sample is a real number. The arithmetic on the points (the third point, the
  product of a matrix and a point) is exact. The rounding of the \<^verbatim>\<open>float32\<close> arrays
  (the cast and the mean of the transformed landmarks, the running average of the
  images, the scaling by 255) is a parameter \<open>fl\<close> of the run: the identity gives the
  run in exact arithmetic, \<open>float32\<close> the run with the rounding of the script. The three
  OpenCV routines the script calls (\<^verbatim>\<open>estimateRigidTransform\<close>, \<^verbatim>\<open>getAffineTransform\<close>,
  \<^verbatim>\<open>warpAffine\<close>) are not part of the script: the model takes them as parameters.
\<close>

subsection \<open>Data\<close>

type_synonym point = "real \<times> real"

text \<open>A 2x3 matrix, by rows.\<close>

type_synonym transform = "(real \<times> real \<times> real) \<times> (real \<times> real \<times> real)"

text \<open>An image buffer, read by row, column and channel.\<close>

type_synonym image = "nat \<times> nat \<times> nat \<Rightarrow> real"

type_synonym raw_image = "nat \<times> nat \<times> nat \<Rightarrow> 8 word"

text \<open>
  The exceptions a run can end with. The script defines no exception class of its own;
  \<open>DegenerateGeometryError\<close> and \<open>EmptyBatchError\<close> are the names the specification
  uses, listed so that statements about them can be written down.
\<close>

datatype error =
    AttributeError
  | IndexError
  | ValueError
  | DegenerateGeometryError
  | EmptyBatchError

text \<open>
  \<^verbatim>\<open>cv2.estimateRigidTransform(src, dst, fullAffine)\<close> returns a matrix, or \<^verbatim>\<open>None\<close>
  when it finds no transform. \<^verbatim>\<open>cv2.getAffineTransform(src, dst)\<close> returns a matrix.
  \<^verbatim>\<open>cv2.warpAffine(image, M, dsize)\<close> returns a new buffer.
\<close>

type_synonym estimator = "point list \<Rightarrow> point list \<Rightarrow> bool \<Rightarrow> transform option"

type_synonym solver = "point list \<Rightarrow> point list \<Rightarrow> transform"

type_synonym warper = "image \<Rightarrow> transform \<Rightarrow> nat \<times> nat \<Rightarrow> image"

subsection \<open>Rounding\<close>

text \<open>
  Rounding to the nearest binary floating-point number with \<open>p\<close> digits and least
  exponent \<open>emin\<close>, a tie going to the even digit string: the number is scaled by the
  power of two of its last digit, rounded to an integer and scaled back. Below
  \<open>2 ^ emin\<close> the last digit stays at \<open>emin - (p - 1)\<close> (gradual underflow). Overflow to
  infinity is not modelled.
\<close>

definition round_half_even :: "real \<Rightarrow> int" where
  "round_half_even y =
     (let f = \<lfloor>y\<rfloor>
      in if y - real_of_int f < 1 / 2 then f
         else if 1 / 2 < y - real_of_int f then f + 1
         else if even f then f else f + 1)"

definition quantum :: "nat \<Rightarrow> int \<Rightarrow> real \<Rightarrow> int" where
  "quantum p emin x = max \<lfloor>log 2 \<bar>x\<bar>\<rfloor> emin - (int p - 1)"

definition round_float :: "nat \<Rightarrow> int \<Rightarrow> real \<Rightarrow> real" where
  "round_float p emin x =
     (if x = 0 then 0
      else 2 powr real_of_int (quantum p emin x)
             * real_of_int (round_half_even (x / 2 powr real_of_int (quantum p emin x))))"

definition float32 :: "real \<Rightarrow> real" where
  "float32 = round_float 24 (- 126)"

definition float64 :: "real \<Rightarrow> real" where
  "float64 = round_float 53 (- 1022)"

subsection \<open>The third point of the equilateral triangle\<close>

definition PI3 :: real where
  "PI3 = pi / 3"

definition SIN_PI3 :: real where
  "SIN_PI3 = sin PI3"

definition COS_PI3 :: real where
  "COS_PI3 = cos PI3"

fun calculate_third_equilateral_point :: "point \<Rightarrow> point \<Rightarrow> point" where
  "calculate_third_equilateral_point (a_x, a_y) (b_x, b_y) =
     ((COS_PI3 * (a_x - b_x)) - (SIN_PI3 * (a_y - b_y)) + b_x,
      (SIN_PI3 * (a_x - b_x)) + (COS_PI3 * (a_y - b_y)) + b_y)"

text \<open>
  Python's \<^verbatim>\<open>round(x, 3)\<close>: the nearest multiple of one thousandth, a tie going to the
  even one.
\<close>

definition round3 :: "real \<Rightarrow> real" where
  "round3 x =
     (let y = x * 1000; f = \<lfloor>y\<rfloor>
      in real_of_int
           (if y - real_of_int f < 1 / 2 then f
            else if 1 / 2 < y - real_of_int f then f + 1
            else if even f then f else f + 1) / 1000)"

definition distance :: "point \<Rightarrow> point \<Rightarrow> real" where
  "distance p q = sqrt ((fst p - fst q)\<^sup>2 + (snd p - snd q)\<^sup>2)"

subsection \<open>Estimating a transform\<close>

text \<open>
  \<^verbatim>\<open>calculate_transform\<close>: a pair of points is completed to a triangle on each side;
  the rigid estimator (\<^verbatim>\<open>fullAffine=False\<close>) is called on the result, and whatever it
  returns is returned. There is no check of the points and no \<^verbatim>\<open>raise\<close>.
\<close>

fun with_third :: "point list \<Rightarrow> point list" where
  "with_third [a, b] = [a, b, calculate_third_equilateral_point a b]"
| "with_third ps = ps"

definition calculate_transform :: "estimator \<Rightarrow> point list \<Rightarrow> point list \<Rightarrow> transform option" where
  "calculate_transform estimateRigidTransform starting_point target_point =
     estimateRigidTransform (with_third starting_point) (with_third target_point) False"

text \<open>
  Python's \<^verbatim>\<open>int(x)\<close> on a float: truncation towards zero. The ratios \<^verbatim>\<open>0.35\<close> and
  \<^verbatim>\<open>0.4\<close> are the doubles nearest to them, and the difference and the products are
  rounded to doubles before the truncation.
\<close>

definition py_int :: "real \<Rightarrow> int" where
  "py_int x = (if 0 \<le> x then \<lfloor>x\<rfloor> else \<lceil>x\<rceil>)"

definition calculate_pupil_points :: "int \<Rightarrow> int \<Rightarrow> (int \<times> int) \<times> (int \<times> int)" where
  "calculate_pupil_points output_width output_height =
     (let pupil_ratio_from_left = float64 (35 / 100)
      in ((py_int (float64 (real_of_int output_width * pupil_ratio_from_left)),
           py_int (float64 (real_of_int output_height * float64 (4 / 10)))),
          (py_int (float64 (real_of_int output_width * float64 (1 - pupil_ratio_from_left))),
           py_int (float64 (real_of_int output_height * float64 (4 / 10))))))"

definition as_point :: "int \<times> int \<Rightarrow> point" where
  "as_point p = (real_of_int (fst p), real_of_int (snd p))"

subsection \<open>Loading\<close>

text \<open>
  \<^verbatim>\<open>load_data\<close> walks over the photographs of the directory. What it reads from disk is
  the argument here: for each photograph its decoded 8-bit samples and the coordinates
  parsed from its text file (none when the file is missing). A photograph with fewer
  than five coordinates is skipped; the samples of the others are divided by 255 in
  \<^verbatim>\<open>float32\<close>. Every photograph is taken to decode: a file that \<^verbatim>\<open>cv2.imread\<close> cannot
  read is not among the arguments.
\<close>

definition load_data :: "(raw_image \<times> point list) list \<Rightarrow> image list \<times> point list list" where
  "load_data files =
     (let kept = filter (\<lambda>(img, coords). \<not> length coords < 5) files
      in (map (\<lambda>(img, coords). (\<lambda>i. float32 (real (unat (img i)) / 255))) kept,
          map snd kept))"

subsection \<open>The three passes\<close>

text \<open>Reading a list at a constant position; Python raises \<^verbatim>\<open>IndexError\<close> out of range.\<close>

definition item :: "'a list \<Rightarrow> nat \<Rightarrow> error + 'a" where
  "item xs i = (if i < length xs then Inr (xs ! i) else Inl IndexError)"

text \<open>\<^verbatim>\<open>transform.dot(np.array([x, y, 1]))\<close> for a 2x3 matrix.\<close>

fun dot :: "transform \<Rightarrow> point \<Rightarrow> point" where
  "dot ((a, b, c), (d, e, f)) (x, y) = (a * x + b * y + c * 1, d * x + e * y + f * 1)"

text \<open>
  The inner loop of pass 1. A transform that is \<^verbatim>\<open>None\<close> has no \<^verbatim>\<open>dot\<close>: the first
  point raises \<^verbatim>\<open>AttributeError\<close>.
\<close>

fun dot_points :: "transform option \<Rightarrow> point list \<Rightarrow> error + point list" where
  "dot_points transform [] = Inr []"
| "dot_points transform (point # rest) =
     (case transform of
        None \<Rightarrow> Inl AttributeError
      | Some m \<Rightarrow>
          (case dot_points transform rest of
             Inl e \<Rightarrow> Inl e
           | Inr new_image_points \<Rightarrow> Inr (dot m point # new_image_points)))"

definition pass1_photo ::
  "estimator \<Rightarrow> point \<times> point \<Rightarrow> point list \<Rightarrow> error + (transform option \<times> point list)" where
  "pass1_photo est pupil_points image_points =
     (case item image_points 0 of
        Inl e \<Rightarrow> Inl e
      | Inr p0 \<Rightarrow>
          (case item image_points 3 of
             Inl e \<Rightarrow> Inl e
           | Inr p3 \<Rightarrow>
               (let transform =
                      calculate_transform est [p0, p3] [fst pupil_points, snd pupil_points]
                in case dot_points transform image_points of
                     Inl e \<Rightarrow> Inl e
                   | Inr new_image_points \<Rightarrow> Inr (transform, new_image_points))))"

text \<open>The outer loop of pass 1: the first photograph that fails ends the run.\<close>

fun pass1 ::
  "estimator \<Rightarrow> point \<times> point \<Rightarrow> point list list
     \<Rightarrow> error + (transform option list \<times> point list list)" where
  "pass1 est pupil_points [] = Inr ([], [])"
| "pass1 est pupil_points (image_points # rest) =
     (case pass1_photo est pupil_points image_points of
        Inl e \<Rightarrow> Inl e
      | Inr (transform, new_image_points) \<Rightarrow>
          (case pass1 est pupil_points rest of
             Inl e \<Rightarrow> Inl e
           | Inr (all_transforms, transformed_images_points) \<Rightarrow>
               Inr (transform # all_transforms,
                    new_image_points # transformed_images_points)))"

text \<open>
  \<^verbatim>\<open>np.average(np.array(sets, float32), axis=0)\<close>. Sets of different lengths make no
  array (\<^verbatim>\<open>ValueError\<close>). Every coordinate is cast to the array's type; the sets are
  added slot by slot, one after the other, each sum rounded, and the sums divided by
  their number, the quotient rounded. The average of no set at all is a scalar, which
  has no slot to read: it is the empty list here, so that reading it raises
  \<^verbatim>\<open>IndexError\<close> as reading the scalar does.
\<close>

definition cast_points :: "(real \<Rightarrow> real) \<Rightarrow> point list \<Rightarrow> point list" where
  "cast_points fl ps = map (\<lambda>(x, y). (fl x, fl y)) ps"

definition add_points :: "(real \<Rightarrow> real) \<Rightarrow> point list \<Rightarrow> point list \<Rightarrow> point list" where
  "add_points fl ps qs = map (\<lambda>((x, y), (x', y')). (fl (x + x'), fl (y + y'))) (zip ps qs)"

definition np_average :: "(real \<Rightarrow> real) \<Rightarrow> point list list \<Rightarrow> error + point list" where
  "np_average fl sets =
     (case sets of
        [] \<Rightarrow> Inr []
      | s # rest \<Rightarrow>
          if list_all (\<lambda>t. length t = length s) rest
          then Inr (map (\<lambda>(x, y). (fl (x / real (length sets)), fl (y / real (length sets))))
                      (foldl (add_points fl) (cast_points fl s) (map (cast_points fl) rest)))
          else Inl ValueError)"

text \<open>The three slots the later passes read: the pupils and the mouth.\<close>

definition triangle :: "point list \<Rightarrow> error + point list" where
  "triangle ps =
     (case item ps 0 of
        Inl e \<Rightarrow> Inl e
      | Inr p0 \<Rightarrow>
          (case item ps 3 of
             Inl e \<Rightarrow> Inl e
           | Inr p3 \<Rightarrow>
               (case item ps 4 of
                  Inl e \<Rightarrow> Inl e
                | Inr p4 \<Rightarrow> Inr [p0, p3, p4])))"

fun pass2 :: "estimator \<Rightarrow> point list \<Rightarrow> point list list \<Rightarrow> error + transform option list" where
  "pass2 est averaged_points [] = Inr []"
| "pass2 est averaged_points (image_points # rest) =
     (case triangle image_points of
        Inl e \<Rightarrow> Inl e
      | Inr source \<Rightarrow>
          (case triangle averaged_points of
             Inl e \<Rightarrow> Inl e
           | Inr target \<Rightarrow>
               (case pass2 est averaged_points rest of
                  Inl e \<Rightarrow> Inl e
                | Inr all_transforms2 \<Rightarrow>
                    Inr (calculate_transform est source target # all_transforms2))))"

fun pass3 :: "solver \<Rightarrow> point list \<Rightarrow> point list list \<Rightarrow> error + transform list" where
  "pass3 getAffineTransform destination_triangle [] = Inr []"
| "pass3 getAffineTransform destination_triangle (image_points # rest) =
     (case triangle image_points of
        Inl e \<Rightarrow> Inl e
      | Inr source_triangle \<Rightarrow>
          (case pass3 getAffineTransform destination_triangle rest of
             Inl e \<Rightarrow> Inl e
           | Inr all_transforms3 \<Rightarrow>
               Inr (getAffineTransform source_triangle destination_triangle # all_transforms3)))"

subsection \<open>Warping and averaging the images\<close>

text \<open>
  The last loop of \<^verbatim>\<open>main\<close>, over \<^verbatim>\<open>zip(all_images, all_transforms3, range(image_count))\<close>:
  each image is warped once, shown, written under its number with its samples scaled by
  255, and added, divided by the number of images, to the running average. The loop's
  state is the counter and the running average. The buffers are \<^verbatim>\<open>float32\<close> arrays:
  the quotient, the sum and the product by 255 are rounded by \<open>fl\<close>.
\<close>

fun composite ::
  "(real \<Rightarrow> real) \<Rightarrow> warper \<Rightarrow> nat \<times> nat \<Rightarrow> nat \<Rightarrow> (image \<times> transform) list \<Rightarrow> nat
     \<Rightarrow> image \<Rightarrow> image list \<times> (nat \<times> image) list \<times> image" where
  "composite fl warpAffine dsize image_count [] n average_image = ([], [], average_image)"
| "composite fl warpAffine dsize image_count ((img, transform3) # rest) n average_image =
     (let new_image = warpAffine img transform3 dsize;
          (shown, written, final) =
             composite fl warpAffine dsize image_count rest (Suc n)
               (\<lambda>i. fl (average_image i + fl (new_image i / real image_count)))
      in (new_image # shown, (n, \<lambda>i. fl (new_image i * 255)) # written, final))"

subsection \<open>The run\<close>

text \<open>What a run that reaches its end has computed, shown and written.\<close>

record run =
  all_transforms :: "transform option list"
  transformed_images_points :: "point list list"
  averaged_points :: "point list"
  all_transforms2 :: "transform option list"
  all_transforms3 :: "transform list"
  new_images :: "image list"
  written :: "(nat \<times> image) list"
  average_image :: image
  written_average :: image

definition output_width :: nat where
  "output_width = 600"

definition output_height :: nat where
  "output_height = 800"

definition pupil_points :: "point \<times> point" where
  "pupil_points =
     (let pp = calculate_pupil_points (int output_width) (int output_height)
      in (as_point (fst pp), as_point (snd pp)))"

text \<open>
  \<^verbatim>\<open>main\<close> from the line after \<^verbatim>\<open>load_data\<close> on, with the rounding of the \<^verbatim>\<open>float32\<close>
  arrays as its first argument.
\<close>

definition align_with ::
  "(real \<Rightarrow> real) \<Rightarrow> estimator \<Rightarrow> solver \<Rightarrow> warper \<Rightarrow> image list \<times> point list list
     \<Rightarrow> error + run" where
  "align_with fl est solve warp loaded =
     (let all_images = fst loaded; all_images_points = snd loaded
      in case pass1 est pupil_points all_images_points of
           Inl e \<Rightarrow> Inl e
         | Inr (transforms, transformed) \<Rightarrow>
             (case np_average fl transformed of
                Inl e \<Rightarrow> Inl e
              | Inr averaged \<Rightarrow>
                  (case pass2 est averaged transformed of
                     Inl e \<Rightarrow> Inl e
                   | Inr transforms2 \<Rightarrow>
                       (case triangle averaged of
                          Inl e \<Rightarrow> Inl e
                        | Inr destination_triangle \<Rightarrow>
                            (case pass3 solve destination_triangle all_images_points of
                               Inl e \<Rightarrow> Inl e
                             | Inr transforms3 \<Rightarrow>
                                 (let image_count = length all_images;
                                      (shown, files, final) =
                                         composite fl warp (output_width, output_height) image_count
                                           (zip all_images transforms3) 0 (\<lambda>i. 0)
                                  in Inr \<lparr>all_transforms = transforms,
                                          transformed_images_points = transformed,
                                          averaged_points = averaged,
                                          all_transforms2 = transforms2,
                                          all_transforms3 = transforms3,
                                          new_images = shown,
                                          written = files,
                                          average_image = final,
                                          written_average = (\<lambda>i. fl (final i * 255))\<rparr>))))))"

text \<open>The run in exact arithmetic.\<close>

definition align :: "estimator \<Rightarrow> solver \<Rightarrow> warper \<Rightarrow> image list \<times> point list list \<Rightarrow> error + run" where
  "align = align_with (\<lambda>x. x)"

definition main :: "estimator \<Rightarrow> solver \<Rightarrow> warper \<Rightarrow> (raw_image \<times> point list) list \<Rightarrow> error + run" where
  "main est solve warp files = align est solve warp (load_data files)"

text \<open>
  The same run with the second loop of \<^verbatim>\<open>main\<close> (the one that fills
  \<^verbatim>\<open>all_transforms2\<close>) taken out, and what it leaves behind: the final transforms, the
  images shown and written, and the average.
\<close>

type_synonym outputs = "transform list \<times> image list \<times> (nat \<times> image) list \<times> image \<times> image"

definition outputs_of :: "run \<Rightarrow> outputs" where
  "outputs_of r = (all_transforms3 r, new_images r, written r, average_image r, written_average r)"

definition align_without_pass2 ::
  "estimator \<Rightarrow> solver \<Rightarrow> warper \<Rightarrow> image list \<times> point list list \<Rightarrow> error + outputs" where
  "align_without_pass2 est solve warp loaded =
     (let all_images = fst loaded; all_images_points = snd loaded
      in case pass1 est pupil_points all_images_points of
           Inl e \<Rightarrow> Inl e
         | Inr (transforms, transformed) \<Rightarrow>
             (case np_average (\<lambda>x. x) transformed of
                Inl e \<Rightarrow> Inl e
              | Inr averaged \<Rightarrow>
                  (case triangle averaged of
                     Inl e \<Rightarrow> Inl e
                   | Inr destination_triangle \<Rightarrow>
                       (case pass3 solve destination_triangle all_images_points of
                          Inl e \<Rightarrow> Inl e
                        | Inr transforms3 \<Rightarrow>
                            (let image_count = length all_images;
                                 (shown, files, final) =
                                    composite (\<lambda>x. x) warp (output_width, output_height) image_count
                                      (zip all_images transforms3) 0 (\<lambda>i. 0)
                             in Inr (transforms3, shown, files, final, (\<lambda>i. final i * 255)))))))"

subsection \<open>Predicates of the properties\<close>

text \<open>Three points on one line span a triangle of area zero.\<close>

fun collinear :: "point list \<Rightarrow> bool" where
  "collinear [(ax, ay), (bx, by), (cx, cy)] \<longleftrightarrow> (bx - ax) * (cy - ay) - (by - ay) * (cx - ax) = 0"
| "collinear ps \<longleftrightarrow> False"

text \<open>
  A buffer whose samples all lie in \<open>[0, 1]\<close>, and a warp that keeps buffers so.
\<close>

definition unit_range :: "image \<Rightarrow> bool" where
  "unit_range img \<longleftrightarrow> (\<forall>k. 0 \<le> img k \<and> img k \<le> 1)"

definition keeps_unit_range :: "warper \<Rightarrow> nat \<times> nat \<Rightarrow> bool" where
  "keeps_unit_range warp dsize \<longleftrightarrow> (\<forall>img M. unit_range img \<longrightarrow> unit_range (warp img M dsize))"

text \<open>
  The sample that \<open>n\<close> photographs, white all over, leave in the running average:
  \<open>n\<close> times the \<^verbatim>\<open>float32\<close> quotient \<open>1 / n\<close>, added in \<^verbatim>\<open>float32\<close>.
\<close>

definition white_level :: "nat \<Rightarrow> real" where
  "white_level n = ((\<lambda>s. float32 (s + float32 (1 / real n))) ^^ n) 0"

subsection \<open>The exact affine solve of the specification\<close>

text \<open>
  Modelled from the spec: the exact affine solve of the transform estimator (section
  4.2). The script has no solver of its own; it calls \<^verbatim>\<open>cv2.getAffineTransform\<close>, whose
  code is not in the repository. The specification asks for the one affine map that
  sends three source points, not on one line, to their three target points, and for a
  \<open>DegenerateGeometryError\<close> when the source points are on one line. The map is written
  with Cramer's rule on the differences to the first point.
\<close>

fun affine_solve :: "point \<times> point \<times> point \<Rightarrow> point \<times> point \<times> point \<Rightarrow> error + transform" where
  "affine_solve ((px, py), (qx, qy), (rx, ry)) ((px', py'), (qx', qy'), (rx', ry')) =
     (let det = (qx - px) * (ry - py) - (qy - py) * (rx - px)
      in if det = 0 then Inl DegenerateGeometryError
         else
           (let a = ((qx' - px') * (ry - py) - (rx' - px') * (qy - py)) / det;
                b = ((qx - px) * (rx' - px') - (rx - px) * (qx' - px')) / det;
                d = ((qy' - py') * (ry - py) - (ry' - py') * (qy - py)) / det;
                e = ((qx - px) * (ry' - py') - (rx - px) * (qy' - py')) / det
            in Inr ((a, b, px' - a * px - b * py), (d, e, py' - d * px - e * py))))"

subsection \<open>Sample inputs\<close>

text \<open>
  Stand-ins for the library routines, landmark sets and buffers, for the concrete
  instances below. Estimators: one that always answers the identity matrix, one that
  finds nothing (the library's \<^verbatim>\<open>None\<close>), one that finds nothing for points on one line
  and the identity otherwise, one that answers the similarity sending the pupils of
  \<open>wide_face\<close> to the pupil targets, and one that answers a shift by \<open>2\<^sup>-\<^sup>2\<^sup>0\<close> of a
  pixel. A solver that answers the identity matrix, and a warp that returns its input.
  A face, a face whose pupils and mouth lie on one line, and a face with its pupils
  further apart. A grey and a white buffer.
\<close>

definition identity_matrix :: transform where
  "identity_matrix = ((1, 0, 0), (0, 1, 0))"

definition steady_estimator :: estimator where
  "steady_estimator src dst fullAffine = Some identity_matrix"



definition eye_estimator :: estimator where
  "eye_estimator src dst fullAffine = Some ((3 / 4, 0, 90), (0, 3 / 4, 95))"

definition shift_estimator :: estimator where
  "shift_estimator src dst fullAffine = Some ((1, 0, 1 / 2 ^ 20), (0, 1, 0))"

definition steady_solver :: solver where
  "steady_solver src dst = identity_matrix"

definition still_warp :: warper where
  "still_warp img M dsize = img"

definition sample_face :: "point list" where
  "sample_face = [(200, 300), (250, 305), (350, 305), (400, 300), (300, 500)]"


definition wide_face :: "point list" where
  "wide_face = [(160, 300), (220, 304), (340, 304), (400, 300), (280, 500)]"

definition grey :: image where
  "grey i = 1 / 2"

definition white :: image where
  "white i = 1"

section \<open>The third point\<close>

lemma SIN_PI3_eq: "SIN_PI3 = sqrt 3 / 2"
  by (simp add: SIN_PI3_def PI3_def sin_60)

lemma COS_PI3_eq: "COS_PI3 = 1 / 2"
  by (simp add: COS_PI3_def PI3_def cos_60)

lemma sqrt3_bounds: "1732 / 1000 < sqrt 3" "sqrt 3 < 17325 / 10000"
proof -
  have "(1732 / 1000)\<^sup>2 < (3::real)" by (simp add: power2_eq_square)
  then show "1732 / 1000 < sqrt 3" by (rule real_less_rsqrt)
  have "(3::real) < (17325 / 10000)\<^sup>2" by (simp add: power2_eq_square)
  then show "sqrt 3 < 17325 / 10000" by (rule real_less_lsqrt[rotated -1]) simp_all
qed

lemma round3_above:
  assumes "real_of_int k + 1 / 2 < x * 1000" "x * 1000 < real_of_int k + 1"
  shows "round3 x = real_of_int (k + 1) / 1000"
proof -
  have f: "\<lfloor>x * 1000\<rfloor> = k" using assms by linarith
  show ?thesis using assms by (simp add: round3_def Let_def f)
qed

lemma round3_below:
  assumes "real_of_int k \<le> x * 1000" "x * 1000 < real_of_int k + 1 / 2"
  shows "round3 x = real_of_int k / 1000"
proof -
  have f: "\<lfloor>x * 1000\<rfloor> = k" using assms by linarith
  show ?thesis using assms by (simp add: round3_def Let_def f)
qed

lemma round3_sqrt3: "round3 (sqrt 3) = 1732 / 1000"
  using round3_below[of "1732" "sqrt 3"] sqrt3_bounds by simp

lemma round3_neg_sqrt3: "round3 (- sqrt 3) = - 1732 / 1000"
  using round3_above[of "-1733" "- sqrt 3"] sqrt3_bounds by simp

lemma round3_two_minus_sqrt3: "round3 (2 - sqrt 3) = 268 / 1000"
  using round3_above[of "267" "2 - sqrt 3"] sqrt3_bounds by simp

lemma round3_1: "round3 1 = 1"
  using round3_below[of "1000" "1"] by simp

lemma round3_3: "round3 3 = 3"
  using round3_below[of "3000" "3"] by simp

text \<open>A rotation by a sixth of a turn keeps lengths, and its chord is as long as its radius.\<close>

lemma rot60_norm:
  fixes u v s :: real
  assumes "s * s = 3"
  shows "(1 / 2 * u - s / 2 * v)\<^sup>2 + (s / 2 * u + 1 / 2 * v)\<^sup>2 = u\<^sup>2 + v\<^sup>2"
proof -
  have "(1 / 2 * u - s / 2 * v)\<^sup>2 + (s / 2 * u + 1 / 2 * v)\<^sup>2
        = (1 + s * s) * (u * u + v * v) / 4"
    by (simp add: power2_eq_square field_simps)
  then show ?thesis by (simp add: assms power2_eq_square)
qed

lemma rot60_chord:
  fixes u v s :: real
  assumes "s * s = 3"
  shows "(1 / 2 * u - s / 2 * v - u)\<^sup>2 + (s / 2 * u + 1 / 2 * v - v)\<^sup>2 = u\<^sup>2 + v\<^sup>2"
proof -
  have "(1 / 2 * u - s / 2 * v - u)\<^sup>2 + (s / 2 * u + 1 / 2 * v - v)\<^sup>2
        = (1 + s * s) * (u * u + v * v) / 4"
    by (simp add: power2_eq_square field_simps)
  then show ?thesis by (simp add: assms power2_eq_square)
qed

lemma third_to_b:
  "distance (calculate_third_equilateral_point (ax, ay) (bx, by)) (bx, by)
     = distance (ax, ay) (bx, by)"
proof -
  have "(1 / 2 * (ax - bx) - sqrt 3 / 2 * (ay - by) + bx - bx)\<^sup>2
          + (sqrt 3 / 2 * (ax - bx) + 1 / 2 * (ay - by) + by - by)\<^sup>2
        = (ax - bx)\<^sup>2 + (ay - by)\<^sup>2"
    using rot60_norm[of "sqrt 3" "ax - bx" "ay - by"] by simp
  then show ?thesis by (simp add: distance_def SIN_PI3_eq COS_PI3_eq)
qed

lemma third_to_a:
  "distance (calculate_third_equilateral_point (ax, ay) (bx, by)) (ax, ay)
     = distance (ax, ay) (bx, by)"
proof -
  have e: "1 / 2 * (ax - bx) - sqrt 3 / 2 * (ay - by) + bx - ax
             = 1 / 2 * (ax - bx) - sqrt 3 / 2 * (ay - by) - (ax - bx)"
     "sqrt 3 / 2 * (ax - bx) + 1 / 2 * (ay - by) + by - ay
             = sqrt 3 / 2 * (ax - bx) + 1 / 2 * (ay - by) - (ay - by)"
    by simp_all
  have "(1 / 2 * (ax - bx) - sqrt 3 / 2 * (ay - by) + bx - ax)\<^sup>2
          + (sqrt 3 / 2 * (ax - bx) + 1 / 2 * (ay - by) + by - ay)\<^sup>2
        = (ax - bx)\<^sup>2 + (ay - by)\<^sup>2"
    unfolding e using rot60_chord[of "sqrt 3" "ax - bx" "ay - by"] by simp
  then show ?thesis by (simp add: distance_def SIN_PI3_eq COS_PI3_eq)
qed

text \<open>
  Claim C4. \<^verbatim>\<open>calculate_third_equilateral_point a b\<close> is \<open>a\<close> turned around \<open>b\<close> by
  \<open>\<pi>/3\<close>: its coordinates are those of the rotation formula, it is as far from \<open>b\<close>
  and from \<open>a\<close> as \<open>a\<close> is from \<open>b\<close> (the triangle is equilateral), and the three
  examples of the docstring round to \<open>(1.0, -1.732)\<close>, \<open>(1.732, 1.0)\<close> and
  \<open>(3.0, 0.268)\<close>.
\<close>

theorem third_point_is_rotation_by_pi3:
  "calculate_third_equilateral_point (ax, ay) (bx, by)
     = (cos (pi / 3) * (ax - bx) - sin (pi / 3) * (ay - by) + bx,
        sin (pi / 3) * (ax - bx) + cos (pi / 3) * (ay - by) + by)
   \<and> distance (calculate_third_equilateral_point (ax, ay) (bx, by)) (bx, by)
       = distance (ax, ay) (bx, by)
   \<and> distance (calculate_third_equilateral_point (ax, ay) (bx, by)) (ax, ay)
       = distance (ax, ay) (bx, by)
   \<and> map_prod round3 round3 (calculate_third_equilateral_point (0, 0) (2, 0))
       = (1, - 1732 / 1000)
   \<and> map_prod round3 round3 (calculate_third_equilateral_point (0, 0) (0, 2))
       = (1732 / 1000, 1)
   \<and> map_prod round3 round3 (calculate_third_equilateral_point (2, 2) (4, 2))
       = (3, 268 / 1000)"
proof -
  have formula: "calculate_third_equilateral_point (ax, ay) (bx, by)
     = (cos (pi / 3) * (ax - bx) - sin (pi / 3) * (ay - by) + bx,
        sin (pi / 3) * (ax - bx) + cos (pi / 3) * (ay - by) + by)"
    by (simp add: SIN_PI3_def COS_PI3_def PI3_def)
  have ex1: "map_prod round3 round3 (calculate_third_equilateral_point (0, 0) (2, 0))
       = (1, - 1732 / 1000)"
    using round3_neg_sqrt3 by (simp add: SIN_PI3_eq COS_PI3_eq round3_1)
  have ex2: "map_prod round3 round3 (calculate_third_equilateral_point (0, 0) (0, 2))
       = (1732 / 1000, 1)"
    using round3_sqrt3 by (simp add: SIN_PI3_eq COS_PI3_eq round3_1)
  have ex3: "map_prod round3 round3 (calculate_third_equilateral_point (2, 2) (4, 2))
       = (3, 268 / 1000)"
    using round3_two_minus_sqrt3 by (simp add: SIN_PI3_eq COS_PI3_eq round3_3)
  show ?thesis
    using formula third_to_b[of ax ay bx "by"] third_to_a[of ax ay bx "by"] ex1 ex2 ex3
    by blast
qed

section \<open>Rounding\<close>

lemma rhe_cases:
  "round_half_even y = \<lfloor>y\<rfloor> \<or> round_half_even y = \<lfloor>y\<rfloor> + 1"
  by (simp add: round_half_even_def Let_def)

lemma rhe_lower: "y - 1 / 2 \<le> real_of_int (round_half_even y)"
  unfolding round_half_even_def Let_def by (auto; linarith)

lemma rhe_upper: "real_of_int (round_half_even y) \<le> y + 1 / 2"
  unfolding round_half_even_def Let_def by (auto; linarith)

lemma rhe_of_int: "round_half_even (real_of_int n) = n"
  by (simp add: round_half_even_def Let_def)

lemma rhe_mono: "y \<le> z \<Longrightarrow> round_half_even y \<le> round_half_even z"
proof -
  assume yz: "y \<le> z"
  have fl: "\<lfloor>y\<rfloor> \<le> \<lfloor>z\<rfloor>" using yz by (rule floor_mono)
  show ?thesis
  proof (cases "\<lfloor>y\<rfloor> = \<lfloor>z\<rfloor>")
    case True
    then show ?thesis using yz
      unfolding round_half_even_def Let_def by (auto; linarith)
  next
    case False
    then have "\<lfloor>y\<rfloor> + 1 \<le> \<lfloor>z\<rfloor>" using fl by simp
    moreover have "round_half_even y \<le> \<lfloor>y\<rfloor> + 1" using rhe_cases[of y] by auto
    moreover have "\<lfloor>z\<rfloor> \<le> round_half_even z" using rhe_cases[of z] by auto
    ultimately show ?thesis by linarith
  qed
qed

lemma rhe_le_int: "y \<le> real_of_int n \<Longrightarrow> round_half_even y \<le> n"
  using rhe_mono[of y "real_of_int n"] by (simp add: rhe_of_int)

lemma rhe_ge_int: "real_of_int n \<le> y \<Longrightarrow> n \<le> round_half_even y"
  using rhe_mono[of "real_of_int n" y] by (simp add: rhe_of_int)

lemma rhe_minus: "round_half_even (- y) = - round_half_even y"
proof (cases "y = real_of_int \<lfloor>y\<rfloor>")
  case True
  then have "- y = real_of_int (- \<lfloor>y\<rfloor>)" by simp
  then have "round_half_even (- y) = - \<lfloor>y\<rfloor>" by (metis rhe_of_int)
  moreover have "round_half_even y = \<lfloor>y\<rfloor>" using True by (metis rhe_of_int)
  ultimately show ?thesis by simp
next
  case False
  then have f: "\<lfloor>- y\<rfloor> = - \<lfloor>y\<rfloor> - 1"
    by (simp add: floor_eq_iff; linarith)
  have lt: "real_of_int \<lfloor>y\<rfloor> < y" using False by (metis floor_correct order_less_le)
  have ev: "even (- \<lfloor>y\<rfloor> - 1) \<longleftrightarrow> odd \<lfloor>y\<rfloor>" by simp
  show ?thesis
    unfolding round_half_even_def Let_def f ev using lt
    by (auto; linarith)
qed

lemma two_powr_int_pos: "0 < (2::real) powr real_of_int q"
  by simp

lemma two_powr_nat: "(2::real) powr real_of_int (int n) = 2 ^ n"
  by (simp add: powr_realpow)

lemma two_powr_add: "(2::real) powr real_of_int (a + b) = 2 powr real_of_int a * 2 powr real_of_int b"
  by (simp add: powr_add)

lemma two_powr_mono: "a \<le> b \<Longrightarrow> (2::real) powr real_of_int a \<le> 2 powr real_of_int b"
  by simp

lemma binade:
  assumes "x \<noteq> 0"
  shows "2 powr real_of_int \<lfloor>log 2 \<bar>x\<bar>\<rfloor> \<le> \<bar>x\<bar>"
    and "\<bar>x\<bar> < 2 powr real_of_int (\<lfloor>log 2 \<bar>x\<bar>\<rfloor> + 1)"
proof -
  have "0 < \<bar>x\<bar>" using assms by simp
  from floor_log_eq_powr_iff[OF this, of 2 "\<lfloor>log 2 \<bar>x\<bar>\<rfloor>"]
  show "2 powr real_of_int \<lfloor>log 2 \<bar>x\<bar>\<rfloor> \<le> \<bar>x\<bar>"
    and "\<bar>x\<bar> < 2 powr real_of_int (\<lfloor>log 2 \<bar>x\<bar>\<rfloor> + 1)" by simp_all
qed

lemma binade_eq:
  assumes "2 powr real_of_int e \<le> \<bar>x\<bar>" and "\<bar>x\<bar> < 2 powr real_of_int (e + 1)"
  shows "\<lfloor>log 2 \<bar>x\<bar>\<rfloor> = e"
proof -
  have "0 < \<bar>x\<bar>" using assms(1) two_powr_int_pos[of e] by linarith
  from floor_log_eq_powr_iff[OF this, of 2 e] assms show ?thesis by simp
qed

lemma round_float_0: "round_float p emin 0 = 0"
  by (simp add: round_float_def)

lemma round_float_minus: "round_float p emin (- x) = - round_float p emin x"
  by (simp add: round_float_def quantum_def rhe_minus)

lemma round_float_eval:
  assumes "2 powr real_of_int e \<le> \<bar>x\<bar>" and "\<bar>x\<bar> < 2 powr real_of_int (e + 1)"
    and "q = max e emin - (int p - 1)"
  shows "round_float p emin x
           = 2 powr real_of_int q * real_of_int (round_half_even (x / 2 powr real_of_int q))"
proof -
  have "x \<noteq> 0" using assms(1) two_powr_int_pos[of e] by auto
  then show ?thesis
    by (simp add: round_float_def quantum_def binade_eq[OF assms(1,2)] assms(3))
qed

lemma round_float_fixes:
  assumes v: "v = 2 powr real_of_int q * real_of_int k"
    and k: "\<bar>k\<bar> < 2 ^ p" and q: "emin - (int p - 1) \<le> q" and p: "0 < p"
  shows "round_float p emin v = v"
proof (cases "v = 0")
  case True
  then show ?thesis by (simp add: round_float_0)
next
  case False
  let ?e = "\<lfloor>log 2 \<bar>v\<bar>\<rfloor>"
  have "\<bar>v\<bar> = 2 powr real_of_int q * real_of_int \<bar>k\<bar>"
    by (simp add: v abs_mult)
  also have "\<dots> < 2 powr real_of_int q * 2 ^ p"
  proof -
    have "real_of_int \<bar>k\<bar> < real_of_int (2 ^ p)" using k by linarith
    then show ?thesis by simp
  qed
  also have "\<dots> = 2 powr real_of_int (q + int p)"
    by (simp add: powr_add powr_realpow)
  finally have lt: "\<bar>v\<bar> < 2 powr real_of_int (q + int p)" .
  have "2 powr real_of_int ?e \<le> \<bar>v\<bar>" using binade(1)[OF False] .
  with lt have "2 powr real_of_int ?e < 2 powr real_of_int (q + int p)" by linarith
  then have "?e < q + int p" by simp
  then have "quantum p emin v \<le> q" using q by (simp add: quantum_def)
  then obtain d :: nat where qd: "q = quantum p emin v + int d"
    by (metis zle_iff_zadd)
  define qv where "qv = quantum p emin v"
  have qd': "q = qv + int d" using qd by (simp add: qv_def)
  have v': "v = 2 powr real_of_int qv * real_of_int (k * 2 ^ d)"
    unfolding v qd' by (simp add: powr_add powr_realpow)
  have "v / 2 powr real_of_int qv = real_of_int (k * 2 ^ d)"
    by (subst v') simp
  then have "round_half_even (v / 2 powr real_of_int qv) = k * 2 ^ d"
    by (simp only: rhe_of_int)
  then have "round_float p emin v = 2 powr real_of_int qv * real_of_int (k * 2 ^ d)"
    using False by (simp add: round_float_def qv_def)
  also have "\<dots> = v" using v' by simp
  finally show ?thesis .
qed

lemma scaled_below:
  assumes "x \<noteq> 0" and "0 < p"
  shows "\<bar>x\<bar> / 2 powr real_of_int (quantum p emin x) < 2 ^ p"
proof -
  let ?e = "\<lfloor>log 2 \<bar>x\<bar>\<rfloor>"
  let ?q = "quantum p emin x"
  have "?e + 1 \<le> ?q + int p" by (simp add: quantum_def)
  then have "2 powr real_of_int (?e + 1) \<le> 2 powr real_of_int (?q + int p)"
    by (rule two_powr_mono)
  with binade(2)[OF assms(1)] have "\<bar>x\<bar> < 2 powr real_of_int (?q + int p)" by linarith
  also have "\<dots> = 2 powr real_of_int ?q * 2 ^ p" by (simp add: powr_add powr_realpow)
  finally show ?thesis by (simp add: field_simps)
qed

lemma rounded_digits:
  assumes "x \<noteq> 0" and "0 < p"
  shows "\<bar>round_half_even (x / 2 powr real_of_int (quantum p emin x))\<bar> \<le> 2 ^ p"
proof -
  define y where "y = x / 2 powr real_of_int (quantum p emin x)"
  have "\<bar>y\<bar> < 2 ^ p" unfolding y_def using scaled_below[OF assms, of emin] by simp
  then have up: "y \<le> real_of_int (2 ^ p)" and lo: "real_of_int (- (2 ^ p)) \<le> y" by simp_all
  have "round_half_even y \<le> 2 ^ p" using up by (rule rhe_le_int)
  moreover have "- (2 ^ p) \<le> round_half_even y" using lo by (rule rhe_ge_int)
  ultimately have "\<bar>round_half_even y\<bar> \<le> 2 ^ p" by linarith
  then show ?thesis by (simp add: y_def)
qed

lemma round_float_idem:
  assumes "0 < p"
  shows "round_float p emin (round_float p emin x) = round_float p emin x"
proof (cases "x = 0")
  case True
  then show ?thesis by (simp add: round_float_0)
next
  case False
  define q where "q = quantum p emin x"
  define k where "k = round_half_even (x / 2 powr real_of_int q)"
  have v: "round_float p emin x = 2 powr real_of_int q * real_of_int k"
    using False by (simp add: round_float_def q_def k_def)
  have kb: "\<bar>k\<bar> \<le> 2 ^ p" using rounded_digits[OF False assms, of emin] by (simp add: k_def q_def)
  have ql: "emin - (int p - 1) \<le> q" by (simp add: q_def quantum_def)
  show ?thesis
  proof (cases "\<bar>k\<bar> < 2 ^ p")
    case True
    show ?thesis using round_float_fixes[OF v True ql assms] .
  next
    case False
    then have ke: "\<bar>k\<bar> = 2 ^ p" using kb by linarith
    obtain p' where p': "p = Suc p'" using assms by (cases p) auto
    define k' where "k' = (if 0 \<le> k then (2::int) ^ p' else - (2 ^ p'))"
    have kk: "k = 2 * k'" using ke by (auto simp: k'_def p' abs_if split: if_splits)
    have v': "round_float p emin x = 2 powr real_of_int (q + 1) * real_of_int k'"
      by (simp add: v kk powr_add)
    have k'b: "\<bar>k'\<bar> < 2 ^ p" by (simp add: k'_def p')
    have ql': "emin - (int p - 1) \<le> q + 1" using ql by simp
    show ?thesis using round_float_fixes[OF v' k'b ql' assms] .
  qed
qed

lemma round_float_nonneg:
  assumes "0 \<le> x"
  shows "0 \<le> round_float p emin x"
proof (cases "x = 0")
  case True
  then show ?thesis by (simp add: round_float_0)
next
  case False
  have "real_of_int 0 \<le> x / 2 powr real_of_int (quantum p emin x)" using assms by simp
  then have "0 \<le> round_half_even (x / 2 powr real_of_int (quantum p emin x))"
    by (rule rhe_ge_int)
  then show ?thesis using False by (simp add: round_float_def)
qed

lemma quantum_mono:
  assumes "0 < x" and "x \<le> y"
  shows "quantum p emin x \<le> quantum p emin y"
proof -
  have "log 2 \<bar>x\<bar> \<le> log 2 \<bar>y\<bar>" using assms by simp
  then have "\<lfloor>log 2 \<bar>x\<bar>\<rfloor> \<le> \<lfloor>log 2 \<bar>y\<bar>\<rfloor>" by (rule floor_mono)
  then show ?thesis by (simp add: quantum_def)
qed

lemma round_float_mono:
  assumes "0 \<le> x" and "x \<le> y" and "0 < p"
  shows "round_float p emin x \<le> round_float p emin y"
proof (cases "x = 0")
  case True
  then show ?thesis using round_float_nonneg[of y p emin] assms by (simp add: round_float_0)
next
  case False
  then have x: "0 < x" and y: "0 < y" using assms by simp_all
  let ?qx = "quantum p emin x" and ?qy = "quantum p emin y"
  have rx: "round_float p emin x
      = 2 powr real_of_int ?qx * real_of_int (round_half_even (x / 2 powr real_of_int ?qx))"
    using x by (simp add: round_float_def)
  have ry: "round_float p emin y
      = 2 powr real_of_int ?qy * real_of_int (round_half_even (y / 2 powr real_of_int ?qy))"
    using y by (simp add: round_float_def)
  have qq: "?qx \<le> ?qy" using quantum_mono[OF x assms(2)] .
  show ?thesis
  proof (cases "?qx = ?qy")
    case True
    have "x / 2 powr real_of_int ?qy \<le> y / 2 powr real_of_int ?qy"
      using assms(2) by (simp add: divide_right_mono)
    then have "round_half_even (x / 2 powr real_of_int ?qy) \<le> round_half_even (y / 2 powr real_of_int ?qy)"
      by (rule rhe_mono)
    then show ?thesis unfolding rx ry True by (simp add: mult_left_mono)
  next
    case False
    then have lt: "?qx + 1 \<le> ?qy" using qq by simp
    obtain p' where p': "p = Suc p'" using assms(3) by (cases p) auto
    have "x / 2 powr real_of_int ?qx \<le> real_of_int (2 ^ p)"
      using scaled_below[of x p emin] x assms(3) by simp
    then have "round_half_even (x / 2 powr real_of_int ?qx) \<le> 2 ^ p" by (rule rhe_le_int)
    then have "real_of_int (round_half_even (x / 2 powr real_of_int ?qx)) \<le> 2 ^ p"
      by (metis of_int_le_iff of_int_numeral of_int_power)
    then have "round_float p emin x \<le> 2 powr real_of_int ?qx * 2 ^ p"
      unfolding rx by (simp add: mult_left_mono)
    also have "\<dots> = 2 powr real_of_int (?qx + 1) * 2 ^ p'"
      by (simp add: p' powr_add)
    also have "\<dots> \<le> 2 powr real_of_int ?qy * 2 ^ p'"
      using two_powr_mono[OF lt] by (simp add: mult_right_mono)
    also have "\<dots> \<le> round_float p emin y"
    proof -
      let ?e = "\<lfloor>log 2 \<bar>y\<bar>\<rfloor>"
      have "emin - (int p - 1) \<le> ?qx" by (simp add: quantum_def)
      with lt have "emin - (int p - 1) < ?qy" by linarith
      then have qe: "?qy = ?e - (int p - 1)" by (simp add: quantum_def max_def split: if_splits)
      have "2 powr real_of_int ?e \<le> y" using binade(1)[of y] y by simp
      moreover have "2 powr real_of_int ?e = 2 powr real_of_int ?qy * 2 ^ p'"
      proof -
        have "?e = ?qy + int p'" using qe p' by simp
        then have "2 powr real_of_int ?e = 2 powr real_of_int (?qy + int p')" by simp
        then show ?thesis by (simp add: powr_add powr_realpow)
      qed
      ultimately have "real_of_int (2 ^ p') \<le> y / 2 powr real_of_int ?qy"
        by (simp add: field_simps)
      then have "2 ^ p' \<le> round_half_even (y / 2 powr real_of_int ?qy)" by (rule rhe_ge_int)
      then have "(2::real) ^ p' \<le> real_of_int (round_half_even (y / 2 powr real_of_int ?qy))"
        by (metis of_int_le_iff of_int_numeral of_int_power)
      then show ?thesis unfolding ry by (simp add: mult_left_mono)
    qed
    finally show ?thesis .
  qed
qed

lemma round_float_scaled:
  assumes "0 < p"
    and lo: "2 ^ (p - 1) \<le> x * 2 ^ b" and hi: "x * 2 ^ b < 2 ^ p"
    and b: "emin \<le> int p - 1 - int b"
  shows "round_float p emin x = real_of_int (round_half_even (x * 2 ^ b)) / 2 ^ b"
proof -
  obtain p' where p': "p = Suc p'" using assms(1) by (cases p) auto
  define e where "e = int p' - int b"
  have x: "0 < x"
  proof (rule ccontr)
    assume "\<not> 0 < x"
    then have "x * 2 ^ b \<le> 0" by (simp add: mult_le_0_iff)
    moreover have "(0::real) < 2 ^ (p - 1)" by simp
    ultimately show False using lo by linarith
  qed
  have pw: "2 powr real_of_int e = 2 ^ p' / 2 ^ b"
    by (simp add: e_def powr_diff powr_realpow)
  have pw1: "2 powr real_of_int (e + 1) = 2 ^ p / 2 ^ b"
    by (simp add: e_def p' powr_diff powr_add powr_realpow)
  have l: "2 powr real_of_int e \<le> \<bar>x\<bar>"
    unfolding pw using lo x by (simp add: p' field_simps)
  have h: "\<bar>x\<bar> < 2 powr real_of_int (e + 1)"
    unfolding pw1 using hi x by (simp add: field_simps)
  have q: "- int b = max e emin - (int p - 1)"
    using b by (simp add: e_def p')
  have u: "2 powr (- real b) = 1 / 2 ^ b"
    by (simp add: powr_minus powr_realpow divide_inverse)
  show ?thesis
    using round_float_eval[OF l h q] by (simp add: u)
qed

lemma float32_scaled:
  assumes "2 ^ 23 \<le> x * 2 ^ b" and "x * 2 ^ b < 2 ^ 24" and "b \<le> 149"
  shows "float32 x = real_of_int (round_half_even (x * 2 ^ b)) / 2 ^ b"
  unfolding float32_def using round_float_scaled[of 24 x b "- 126"] assms by simp

lemma float64_scaled:
  assumes "2 ^ 52 \<le> x * 2 ^ b" and "x * 2 ^ b < 2 ^ 53" and "b \<le> 1074"
  shows "float64 x = real_of_int (round_half_even (x * 2 ^ b)) / 2 ^ b"
  unfolding float64_def using round_float_scaled[of 53 x b "- 1022"] assms by simp

lemma float32_tenth: "float32 (1 / 10) = 13421773 / 134217728"
  using float32_scaled[of "1 / 10" 27] by (simp add: round_half_even_def Let_def)

lemma float64_035: "float64 (35 / 100) = 6305039478318694 / 2 ^ 54"
  using float64_scaled[of "35 / 100" 54] by (simp add: round_half_even_def Let_def)

lemma float32_idem: "float32 (float32 x) = float32 x"
  unfolding float32_def by (rule round_float_idem) simp

lemma float32_mono: "0 \<le> x \<Longrightarrow> x \<le> y \<Longrightarrow> float32 x \<le> float32 y"
  unfolding float32_def by (rule round_float_mono) simp_all

lemma float32_nonneg: "0 \<le> x \<Longrightarrow> 0 \<le> float32 x"
  unfolding float32_def by (rule round_float_nonneg)

lemma tenth_step1: "float32 (13421773 / 134217728) = 13421773 / 134217728"
  using float32_scaled[of "13421773 / 134217728" 27] by (simp add: round_half_even_def Let_def)

lemma tenth_step2: "float32 (13421773 / 67108864) = 13421773 / 67108864"
  using float32_scaled[of "13421773 / 67108864" 26] by (simp add: round_half_even_def Let_def)

lemma tenth_step3: "float32 (40265319 / 134217728) = 5033165 / 16777216"
  using float32_scaled[of "40265319 / 134217728" 25] by (simp add: round_half_even_def Let_def)

lemma tenth_step4: "float32 (53687093 / 134217728) = 13421773 / 33554432"
  using float32_scaled[of "53687093 / 134217728" 25] by (simp add: round_half_even_def Let_def)

lemma tenth_step5: "float32 (67108865 / 134217728) = 1 / 2"
  using float32_scaled[of "67108865 / 134217728" 24] by (simp add: round_half_even_def Let_def)

lemma tenth_step6: "float32 (80530637 / 134217728) = 5033165 / 8388608"
  using float32_scaled[of "80530637 / 134217728" 24] by (simp add: round_half_even_def Let_def)

lemma tenth_step7: "float32 (93952413 / 134217728) = 2936013 / 4194304"
  using float32_scaled[of "93952413 / 134217728" 24] by (simp add: round_half_even_def Let_def)

lemma tenth_step8: "float32 (107374189 / 134217728) = 6710887 / 8388608"
  using float32_scaled[of "107374189 / 134217728" 24] by (simp add: round_half_even_def Let_def)

lemma tenth_step9: "float32 (120795965 / 134217728) = 1887437 / 2097152"
  using float32_scaled[of "120795965 / 134217728" 24] by (simp add: round_half_even_def Let_def)

lemma tenth_step10: "float32 (134217741 / 134217728) = 8388609 / 8388608"
  using float32_scaled[of "134217741 / 134217728" 23] by (simp add: round_half_even_def Let_def)

lemma ten_tenths: "white_level 10 = 8388609 / 8388608"
proof -
  define g where "g = (\<lambda>s::real. float32 (s + float32 (1 / real (10::nat))))"
  have g: "g s = float32 (s + 13421773 / 134217728)" for s
    by (simp add: g_def float32_tenth)
  have s1: "g (0) = 13421773 / 134217728" by (simp add: g tenth_step1)
  have s2: "g (13421773 / 134217728) = 13421773 / 67108864" by (simp add: g tenth_step2)
  have s3: "g (13421773 / 67108864) = 5033165 / 16777216" by (simp add: g tenth_step3)
  have s4: "g (5033165 / 16777216) = 13421773 / 33554432" by (simp add: g tenth_step4)
  have s5: "g (13421773 / 33554432) = 1 / 2" by (simp add: g tenth_step5)
  have s6: "g (1 / 2) = 5033165 / 8388608" by (simp add: g tenth_step6)
  have s7: "g (5033165 / 8388608) = 2936013 / 4194304" by (simp add: g tenth_step7)
  have s8: "g (2936013 / 4194304) = 6710887 / 8388608" by (simp add: g tenth_step8)
  have s9: "g (6710887 / 8388608) = 1887437 / 2097152" by (simp add: g tenth_step9)
  have s10: "g (1887437 / 2097152) = 8388609 / 8388608" by (simp add: g tenth_step10)
  have "white_level 10 = (g ^^ 10) 0" by (simp add: white_level_def g_def)
  also have "\<dots> = g (g (g (g (g (g (g (g (g (g 0)))))))))"
    by (simp add: eval_nat_numeral)
  also have "\<dots> = 8388609 / 8388608"
    by (simp only: s1 s2 s3 s4 s5 s6 s7 s8 s9 s10)
  finally show ?thesis .
qed

lemma float32_200: "float32 200 = 200"
  using float32_scaled[of 200 16] by (simp add: round_half_even_def Let_def)

lemma float32_300: "float32 300 = 300"
  using float32_scaled[of 300 15] by (simp add: round_half_even_def Let_def)

lemma float32_200_shifted: "float32 (209715201 / 1048576) = 200"
  using float32_scaled[of "209715201 / 1048576" 16] by (simp add: round_half_even_def Let_def)

section \<open>The passes in closed form\<close>

lemma item_in: "i < length xs \<Longrightarrow> item xs i = Inr (xs ! i)"
  by (simp add: item_def)

lemma item_out: "\<not> i < length xs \<Longrightarrow> item xs i = Inl IndexError"
  by (simp add: item_def)

lemma triangle_in: "5 \<le> length ps \<Longrightarrow> triangle ps = Inr [ps ! 0, ps ! 3, ps ! 4]"
  by (auto simp: triangle_def item_def)

lemma triangle_out: "length ps < 5 \<Longrightarrow> triangle ps = Inl IndexError"
  by (simp add: triangle_def item_def)

lemma triangle_cases:
  "triangle ps = (if 5 \<le> length ps then Inr [ps ! 0, ps ! 3, ps ! 4] else Inl IndexError)"
  by (auto simp: triangle_def item_def)

lemma dot_points_Some: "dot_points (Some m) ps = Inr (map (dot m) ps)"
  by (induction ps) simp_all


lemma dot_points_error: "dot_points t ps = Inl e \<Longrightarrow> e = AttributeError"
  by (cases t; cases ps) (simp_all add: dot_points_Some)

lemma dot_points_length: "dot_points t ps = Inr qs \<Longrightarrow> length qs = length ps"
  by (cases t; cases ps) (auto simp: dot_points_Some)

lemma pass1_photo_Some:
  assumes "4 \<le> length ps"
    and "calculate_transform est [ps ! 0, ps ! 3] [fst pp, snd pp] = Some m"
  shows "pass1_photo est pp ps = Inr (Some m, map (dot m) ps)"
  using assms by (auto simp: pass1_photo_def item_def dot_points_Some)


lemma pass1_photo_error:
  "pass1_photo est pp ps = Inl e \<Longrightarrow> e = AttributeError \<or> e = IndexError"
  by (auto simp: pass1_photo_def item_def Let_def dest: dot_points_error split: if_splits sum.splits)

lemma pass1_photo_length:
  "pass1_photo est pp ps = Inr (t, qs) \<Longrightarrow> length qs = length ps \<and> 4 \<le> length ps"
  by (auto simp: pass1_photo_def item_def Let_def dest: dot_points_length split: if_splits sum.splits)

lemma pass1_error:
  "pass1 est pp all = Inl e \<Longrightarrow> e = AttributeError \<or> e = IndexError"
proof (induction all)
  case Nil
  then show ?case by simp
next
  case (Cons ps rest)
  then show ?case
    by (auto dest: pass1_photo_error split: sum.splits prod.splits)
qed

lemma pass1_lengths:
  "pass1 est pp all = Inr (ts, sets) \<Longrightarrow>
     length ts = length all \<and> map length sets = map length all \<and> list_all (\<lambda>s. 4 \<le> length s) sets"
proof (induction all arbitrary: ts sets)
  case Nil
  then show ?case by simp
next
  case (Cons ps rest)
  then show ?case
    by (auto dest!: pass1_photo_length split: sum.splits prod.splits)
qed

lemma pass1_closed:
  assumes "list_all (\<lambda>ps. 4 \<le> length ps
              \<and> calculate_transform est [ps ! 0, ps ! 3] [fst pp, snd pp] \<noteq> None) all"
  shows "pass1 est pp all =
           Inr (map (\<lambda>ps. calculate_transform est [ps ! 0, ps ! 3] [fst pp, snd pp]) all,
                map (\<lambda>ps. map (dot (the (calculate_transform est [ps ! 0, ps ! 3] [fst pp, snd pp]))) ps) all)"
  using assms
proof (induction all)
  case Nil
  then show ?case by simp
next
  case (Cons ps rest)
  from Cons.prems obtain m where m: "calculate_transform est [ps ! 0, ps ! 3] [fst pp, snd pp] = Some m"
    and len: "4 \<le> length ps" by auto
  from Cons have rest: "pass1 est pp rest =
           Inr (map (\<lambda>ps. calculate_transform est [ps ! 0, ps ! 3] [fst pp, snd pp]) rest,
                map (\<lambda>ps. map (dot (the (calculate_transform est [ps ! 0, ps ! 3] [fst pp, snd pp]))) ps) rest)"
    by simp
  show ?case
    by (simp add: pass1_photo_Some[OF len m] rest m)
qed


lemma add_points_length: "length qs = length ps \<Longrightarrow> length (add_points fl ps qs) = length ps"
  by (simp add: add_points_def)

lemma add_points_nth:
  "length qs = length ps \<Longrightarrow> j < length ps \<Longrightarrow>
     add_points fl ps qs ! j = (fl (fst (ps ! j) + fst (qs ! j)), fl (snd (ps ! j) + snd (qs ! j)))"
  by (simp add: add_points_def split_beta)

lemma cast_points_length: "length (cast_points fl ps) = length ps"
  by (simp add: cast_points_def)

lemma cast_points_nth: "j < length ps \<Longrightarrow> cast_points fl ps ! j = (fl (fst (ps ! j)), fl (snd (ps ! j)))"
  by (simp add: cast_points_def split_beta)

lemma foldl_add_points:
  assumes "list_all (\<lambda>t. length t = length acc) rest"
  shows "length (foldl (add_points fl) acc (map (cast_points fl) rest)) = length acc
       \<and> (\<forall>j<length acc. foldl (add_points fl) acc (map (cast_points fl) rest) ! j =
             (foldl (\<lambda>a t. fl (a + fl (fst (t ! j)))) (fst (acc ! j)) rest,
              foldl (\<lambda>a t. fl (a + fl (snd (t ! j)))) (snd (acc ! j)) rest))"
  using assms
proof (induction rest arbitrary: acc)
  case Nil
  then show ?case by simp
next
  case (Cons t rest)
  have lt0: "length t = length acc" using Cons.prems by simp
  have lt: "length (cast_points fl t) = length acc" using lt0 by (simp add: cast_points_length)
  have "list_all (\<lambda>u. length u = length (add_points fl acc (cast_points fl t))) rest"
    using Cons.prems by (simp add: add_points_length lt)
  from Cons.IH[OF this] show ?case
    by (simp add: add_points_length add_points_nth lt lt0 cast_points_nth)
qed

lemma np_average_closed:
  assumes "sets \<noteq> []" and "list_all (\<lambda>t. length t = n) sets"
  shows "\<exists>avg. np_average fl sets = Inr avg \<and> length avg = n
       \<and> (\<forall>j<n. avg ! j =
             (fl (foldl (\<lambda>a t. fl (a + fl (fst (t ! j)))) (fl (fst (hd sets ! j))) (tl sets)
                   / real (length sets)),
              fl (foldl (\<lambda>a t. fl (a + fl (snd (t ! j)))) (fl (snd (hd sets ! j))) (tl sets)
                   / real (length sets))))"
proof -
  obtain s rest where sets: "sets = s # rest" using assms(1) by (cases sets) auto
  have ls: "length s = n" and lr: "list_all (\<lambda>t. length t = length s) rest"
    using assms(2) by (simp_all add: sets)
  have lr': "list_all (\<lambda>t. length t = length (cast_points fl s)) rest"
    using lr by (simp add: cast_points_length)
  note f = foldl_add_points[OF lr', of fl]
  show ?thesis
    using f ls lr by (simp add: sets np_average_def split_beta cast_points_length cast_points_nth)
qed

lemma foldl_plus:
  fixes a :: real
  shows "foldl (\<lambda>a t. a + f t) a ts = a + sum_list (map f ts)"
  by (induction ts arbitrary: a) (simp_all add: add.assoc)

lemma np_average_exact:
  assumes "sets \<noteq> []" and "list_all (\<lambda>t. length t = n) sets"
  shows "\<exists>avg. np_average (\<lambda>x. x) sets = Inr avg \<and> length avg = n
       \<and> (\<forall>j<n. avg ! j =
             (sum_list (map (\<lambda>t. fst (t ! j)) sets) / real (length sets),
              sum_list (map (\<lambda>t. snd (t ! j)) sets) / real (length sets)))"
proof -
  obtain s rest where sets: "sets = s # rest" using assms(1) by (cases sets) auto
  from np_average_closed[OF assms, of "\<lambda>x. x"] show ?thesis
    by (simp add: sets foldl_plus)
qed

lemma np_average_single:
  "np_average fl [s] = Inr (map (\<lambda>(x, y). (fl (fl x), fl (fl y))) s)"
  by (simp add: np_average_def cast_points_def split_beta)

lemma np_average_error: "np_average fl sets = Inl e \<Longrightarrow> e = ValueError"
  by (auto simp: np_average_def split: list.splits if_splits)

lemma np_average_lengths:
  assumes "np_average fl sets = Inr avg"
  shows "list_all (\<lambda>t. length t = length avg) sets"
proof (cases sets)
  case Nil
  then show ?thesis by simp
next
  case (Cons s rest)
  with assms have lr: "list_all (\<lambda>t. length t = length s) rest"
    by (auto simp: np_average_def split: if_splits)
  then have lr': "list_all (\<lambda>t. length t = length (cast_points fl s)) rest"
    by (simp add: cast_points_length)
  with assms Cons lr foldl_add_points[OF lr', of fl] show ?thesis
    by (auto simp: np_average_def cast_points_length)
qed

lemma pass2_closed:
  assumes "list_all (\<lambda>s. 5 \<le> length s) sets" and "5 \<le> length avg"
  shows "pass2 est avg sets =
           Inr (map (\<lambda>s. calculate_transform est [s ! 0, s ! 3, s ! 4] [avg ! 0, avg ! 3, avg ! 4]) sets)"
  using assms by (induction sets) (simp_all add: triangle_in)

lemma pass2_error:
  "pass2 est avg sets = Inl e \<Longrightarrow>
     e = IndexError \<and> (length avg < 5 \<or> \<not> list_all (\<lambda>s. 5 \<le> length s) sets)"
proof (induction sets)
  case Nil
  then show ?case by simp
next
  case (Cons s rest)
  then show ?case
    by (auto simp: triangle_cases split: if_splits sum.splits)
qed

lemma pass3_closed:
  assumes "list_all (\<lambda>s. 5 \<le> length s) all"
  shows "pass3 solve dest all = Inr (map (\<lambda>s. solve [s ! 0, s ! 3, s ! 4] dest) all)"
  using assms by (induction all) (simp_all add: triangle_in)

lemma pass3_error: "pass3 solve dest all = Inl e \<Longrightarrow> e = IndexError"
proof (induction all)
  case Nil
  then show ?case by simp
next
  case (Cons s rest)
  then show ?case
    by (auto simp: triangle_cases split: if_splits sum.splits)
qed

lemma pass3_length: "pass3 solve dest all = Inr ts \<Longrightarrow> length ts = length all"
proof (induction all arbitrary: ts)
  case Nil
  then show ?case by simp
next
  case (Cons s rest)
  then show ?case
    by (auto split: sum.splits)
qed

lemma composite_closed:
  "composite fl warp ds c pairs n avg =
     (map (\<lambda>(img, t). warp img t ds) pairs,
      zip [n ..< n + length pairs] (map (\<lambda>(img, t). (\<lambda>i. fl (warp img t ds i * 255))) pairs),
      (\<lambda>i. foldl (\<lambda>s (img, t). fl (s + fl (warp img t ds i / real c))) (avg i) pairs))"
proof (induction pairs arbitrary: n avg)
  case Nil
  then show ?case by simp
next
  case (Cons p pairs)
  obtain img t where p: "p = (img, t)" by (cases p)
  have up: "[n ..< n + length (p # pairs)] = n # [Suc n ..< Suc n + length pairs]"
    by (subst upt_rec) simp
  show ?case
    unfolding up by (simp add: p Cons.IH Let_def del: upt_Suc)
qed

lemma foldl_plus_pairs:
  fixes a :: real
  shows "foldl (\<lambda>s (img, t). s + g img t) a pairs = a + sum_list (map (\<lambda>(img, t). g img t) pairs)"
  by (induction pairs arbitrary: a) (auto simp: add.assoc)

lemma composite_exact:
  "composite (\<lambda>x. x) warp ds c pairs n avg =
     (map (\<lambda>(img, t). warp img t ds) pairs,
      zip [n ..< n + length pairs] (map (\<lambda>(img, t). (\<lambda>i. warp img t ds i * 255)) pairs),
      (\<lambda>i. avg i + sum_list (map (\<lambda>(img, t). warp img t ds i / real c) pairs)))"
  by (simp add: composite_closed foldl_plus_pairs)

lemma foldl_replicate: "foldl f a (replicate n p) = ((\<lambda>s. f s p) ^^ n) a"
proof (induction n arbitrary: a)
  case 0
  then show ?case by simp
next
  case (Suc n)
  show ?case using Suc[of "f a p"] funpow_swap1[of "\<lambda>s. f s p" n a] by simp
qed

lemma accumulate_bounds:
  fixes w :: "'a \<Rightarrow> 'b \<Rightarrow> real" and c :: real
  assumes "list_all (\<lambda>(img, t). 0 \<le> w img t \<and> w img t \<le> 1) pairs"
    and "0 \<le> a" and "a \<le> a'" and "0 \<le> c"
  shows "0 \<le> foldl (\<lambda>s (img, t). float32 (s + float32 (w img t / c))) a pairs
       \<and> foldl (\<lambda>s (img, t). float32 (s + float32 (w img t / c))) a pairs
           \<le> ((\<lambda>s. float32 (s + float32 (1 / c))) ^^ length pairs) a'"
  using assms
proof (induction pairs arbitrary: a a')
  case Nil
  then show ?case by simp
next
  case (Cons p pairs)
  obtain img t where p: "p = (img, t)" by (cases p)
  have w: "0 \<le> w img t" "w img t \<le> 1" and rest: "list_all (\<lambda>(img, t). 0 \<le> w img t \<and> w img t \<le> 1) pairs"
    using Cons.prems(1) by (simp_all add: p)
  have q0: "0 \<le> w img t / c" using w(1) Cons.prems(4) by simp
  have q1: "w img t / c \<le> 1 / c" using w(2) Cons.prems(4) by (simp add: divide_right_mono)
  have f0: "0 \<le> float32 (w img t / c)" using q0 by (rule float32_nonneg)
  have f1: "float32 (w img t / c) \<le> float32 (1 / c)" using q0 q1 by (rule float32_mono)
  have n0: "0 \<le> a + float32 (w img t / c)" using Cons.prems(2) f0 by simp
  have a0: "0 \<le> float32 (a + float32 (w img t / c))" using n0 by (rule float32_nonneg)
  have a1: "float32 (a + float32 (w img t / c)) \<le> float32 (a' + float32 (1 / c))"
    using n0 Cons.prems(3) f1 by (intro float32_mono) simp_all
  from Cons.IH[OF rest a0 a1 Cons.prems(4)] show ?case
    using funpow_swap1[of "\<lambda>s. float32 (s + float32 (1 / c))" "length pairs" a']
    by (simp add: p)
qed

lemma sum_list_unit_bounds:
  fixes xs :: "real list"
  assumes "list_all (\<lambda>x. 0 \<le> x \<and> x \<le> b) xs"
  shows "0 \<le> sum_list xs \<and> sum_list xs \<le> real (length xs) * b"
  using assms by (induction xs) (auto simp: algebra_simps)


lemma distance_self: "distance p p = 0"
  by (simp add: distance_def)

lemma cramer_x:
  fixes det :: real
  assumes "det \<noteq> 0" and "det = u * w - v * z"
  shows "(s * w - t * v) / det * u + (u * t - z * s) / det * v = s"
    and "(s * w - t * v) / det * z + (u * t - z * s) / det * w = t"
proof -
  have n1: "(s * w - t * v) * u + (u * t - z * s) * v = s * det"
    unfolding assms(2) by (simp add: algebra_simps)
  have "(s * w - t * v) / det * u + (u * t - z * s) / det * v
          = ((s * w - t * v) * u + (u * t - z * s) * v) / det"
    by (simp add: add_divide_distrib)
  also have "\<dots> = s" unfolding n1 using assms(1) by simp
  finally show "(s * w - t * v) / det * u + (u * t - z * s) / det * v = s" .
  have n2: "(s * w - t * v) * z + (u * t - z * s) * w = t * det"
    unfolding assms(2) by (simp add: algebra_simps)
  have "(s * w - t * v) / det * z + (u * t - z * s) / det * w
          = ((s * w - t * v) * z + (u * t - z * s) * w) / det"
    by (simp add: add_divide_distrib)
  also have "\<dots> = t" unfolding n2 using assms(1) by simp
  finally show "(s * w - t * v) / det * z + (u * t - z * s) / det * w = t" .
qed

lemma pupil_points_eq: "pupil_points = ((210, 320), (390, 320))"
proof -
  have r035: "float64 (35 / 100) = 3152519739159347 / 9007199254740992"
    using float64_scaled[of "35 / 100" 54] by (simp add: round_half_even_def Let_def)
  have r04: "float64 (4 / 10) = 3602879701896397 / 9007199254740992"
    using float64_scaled[of "4 / 10" 54] by (simp add: round_half_even_def Let_def)
  have r065: "float64 (1 - 3152519739159347 / 9007199254740992)
                = 5854679515581645 / 9007199254740992"
    using float64_scaled[of "1 - 3152519739159347 / 9007199254740992" 53]
    by (simp add: round_half_even_def Let_def)
  have r210: "float64 (real_of_int (int output_width) * (3152519739159347 / 9007199254740992)) = 210"
    using float64_scaled[of "600 * (3152519739159347 / 9007199254740992)" 45]
    by (simp add: round_half_even_def Let_def output_width_def)
  have r390: "float64 (real_of_int (int output_width) * (5854679515581645 / 9007199254740992)) = 390"
    using float64_scaled[of "600 * (5854679515581645 / 9007199254740992)" 44]
    by (simp add: round_half_even_def Let_def output_width_def)
  have r320: "float64 (real_of_int (int output_height) * (3602879701896397 / 9007199254740992)) = 320"
    using float64_scaled[of "800 * (3602879701896397 / 9007199254740992)" 44]
    by (simp add: round_half_even_def Let_def output_height_def)
  show ?thesis
    unfolding pupil_points_def calculate_pupil_points_def Let_def r035 r04 r065 r210 r390 r320
    by (simp add: py_int_def as_point_def)
qed

section \<open>The run in closed form\<close>

text \<open>
  A batch that is not empty, whose landmark sets all have the same number \<open>n \<ge> 5\<close> of
  points and for which the estimator of pass 1 finds a transform every time, runs to its
  end; every value of the run is then known, for every rounding \<open>fl\<close> and, with sums for
  the folds, in exact arithmetic.
\<close>

lemma list_all_conj: "list_all (\<lambda>x. P x \<and> Q x) xs \<longleftrightarrow> list_all P xs \<and> list_all Q xs"
  by (induction xs) auto

lemma align_with_closed:
  fixes est :: estimator and pts :: "point list list" and fl :: "real \<Rightarrow> real"
  defines "T \<equiv> \<lambda>ps. calculate_transform est [ps ! 0, ps ! 3] [fst pupil_points, snd pupil_points]"
  assumes ne: "pts \<noteq> []"
    and len: "list_all (\<lambda>ps. length ps = n) pts"
    and n5: "5 \<le> n"
    and ok: "list_all (\<lambda>ps. T ps \<noteq> None) pts"
  shows "\<exists>avg. np_average fl (map (\<lambda>ps. map (dot (the (T ps))) ps) pts) = Inr avg
      \<and> length avg = n
      \<and> align_with fl est solve warp (imgs, pts) =
          Inr \<lparr>all_transforms = map T pts,
               transformed_images_points = map (\<lambda>ps. map (dot (the (T ps))) ps) pts,
               averaged_points = avg,
               all_transforms2 =
                 map (\<lambda>s. calculate_transform est [s ! 0, s ! 3, s ! 4] [avg ! 0, avg ! 3, avg ! 4])
                   (map (\<lambda>ps. map (dot (the (T ps))) ps) pts),
               all_transforms3 = map (\<lambda>s. solve [s ! 0, s ! 3, s ! 4] [avg ! 0, avg ! 3, avg ! 4]) pts,
               new_images =
                 map (\<lambda>(img, t). warp img t (output_width, output_height))
                   (zip imgs (map (\<lambda>s. solve [s ! 0, s ! 3, s ! 4] [avg ! 0, avg ! 3, avg ! 4]) pts)),
               written =
                 zip [0 ..< 0 + length (zip imgs (map (\<lambda>s. solve [s ! 0, s ! 3, s ! 4] [avg ! 0, avg ! 3, avg ! 4]) pts))]
                   (map (\<lambda>(img, t). (\<lambda>i. fl (warp img t (output_width, output_height) i * 255)))
                      (zip imgs (map (\<lambda>s. solve [s ! 0, s ! 3, s ! 4] [avg ! 0, avg ! 3, avg ! 4]) pts))),
               average_image =
                 (\<lambda>i. foldl (\<lambda>s (img, t). fl (s + fl (warp img t (output_width, output_height) i / real (length imgs)))) 0
                      (zip imgs (map (\<lambda>s. solve [s ! 0, s ! 3, s ! 4] [avg ! 0, avg ! 3, avg ! 4]) pts))),
               written_average =
                 (\<lambda>i. fl (foldl (\<lambda>s (img, t). fl (s + fl (warp img t (output_width, output_height) i / real (length imgs)))) 0
                      (zip imgs (map (\<lambda>s. solve [s ! 0, s ! 3, s ! 4] [avg ! 0, avg ! 3, avg ! 4]) pts)) * 255))\<rparr>"
proof -
  let ?sets = "map (\<lambda>ps. map (dot (the (T ps))) ps) pts"
  have len4: "list_all (\<lambda>ps. 4 \<le> length ps \<and> T ps \<noteq> None) pts"
    using len n5 ok by (induction pts) auto
  have p1: "pass1 est pupil_points pts = Inr (map T pts, ?sets)"
    using pass1_closed[OF len4[unfolded T_def]] by (simp add: T_def)
  have sets_ne: "?sets \<noteq> []" using ne by simp
  have sets_len: "list_all (\<lambda>t. length t = n) ?sets"
    using len by (induction pts) auto
  from np_average_closed[OF sets_ne sets_len, of fl] obtain avg
    where avg: "np_average fl ?sets = Inr avg" and la: "length avg = n" by blast
  have sets5: "list_all (\<lambda>s. 5 \<le> length s) ?sets"
    using len n5 by (induction pts) auto
  have pts5: "list_all (\<lambda>s. 5 \<le> length s) pts"
    using len n5 by (induction pts) auto
  have a5: "5 \<le> length avg" using la n5 by simp
  have p2: "pass2 est avg ?sets =
      Inr (map (\<lambda>s. calculate_transform est [s ! 0, s ! 3, s ! 4] [avg ! 0, avg ! 3, avg ! 4]) ?sets)"
    by (rule pass2_closed[OF sets5 a5])
  have tr: "triangle avg = Inr [avg ! 0, avg ! 3, avg ! 4]"
    by (rule triangle_in[OF a5])
  have p3: "pass3 solve [avg ! 0, avg ! 3, avg ! 4] pts =
      Inr (map (\<lambda>s. solve [s ! 0, s ! 3, s ! 4] [avg ! 0, avg ! 3, avg ! 4]) pts)"
    by (rule pass3_closed[OF pts5])
  have "align_with fl est solve warp (imgs, pts) = Inr \<lparr>all_transforms = map T pts,
               transformed_images_points = ?sets,
               averaged_points = avg,
               all_transforms2 =
                 map (\<lambda>s. calculate_transform est [s ! 0, s ! 3, s ! 4] [avg ! 0, avg ! 3, avg ! 4]) ?sets,
               all_transforms3 = map (\<lambda>s. solve [s ! 0, s ! 3, s ! 4] [avg ! 0, avg ! 3, avg ! 4]) pts,
               new_images =
                 map (\<lambda>(img, t). warp img t (output_width, output_height))
                   (zip imgs (map (\<lambda>s. solve [s ! 0, s ! 3, s ! 4] [avg ! 0, avg ! 3, avg ! 4]) pts)),
               written =
                 zip [0 ..< 0 + length (zip imgs (map (\<lambda>s. solve [s ! 0, s ! 3, s ! 4] [avg ! 0, avg ! 3, avg ! 4]) pts))]
                   (map (\<lambda>(img, t). (\<lambda>i. fl (warp img t (output_width, output_height) i * 255)))
                      (zip imgs (map (\<lambda>s. solve [s ! 0, s ! 3, s ! 4] [avg ! 0, avg ! 3, avg ! 4]) pts))),
               average_image =
                 (\<lambda>i. foldl (\<lambda>s (img, t). fl (s + fl (warp img t (output_width, output_height) i / real (length imgs)))) 0
                      (zip imgs (map (\<lambda>s. solve [s ! 0, s ! 3, s ! 4] [avg ! 0, avg ! 3, avg ! 4]) pts))),
               written_average =
                 (\<lambda>i. fl (foldl (\<lambda>s (img, t). fl (s + fl (warp img t (output_width, output_height) i / real (length imgs)))) 0
                      (zip imgs (map (\<lambda>s. solve [s ! 0, s ! 3, s ! 4] [avg ! 0, avg ! 3, avg ! 4]) pts)) * 255))\<rparr>"
    unfolding align_with_def Let_def fst_conv snd_conv p1 sum.case prod.case avg p2 tr p3 composite_closed
    by (rule refl)
  with avg la show ?thesis by blast
qed

lemma align_closed:
  fixes est :: estimator and pts :: "point list list"
  defines "T \<equiv> \<lambda>ps. calculate_transform est [ps ! 0, ps ! 3] [fst pupil_points, snd pupil_points]"
  assumes ne: "pts \<noteq> []"
    and len: "list_all (\<lambda>ps. length ps = n) pts"
    and n5: "5 \<le> n"
    and ok: "list_all (\<lambda>ps. T ps \<noteq> None) pts"
  shows "\<exists>avg. np_average (\<lambda>x. x) (map (\<lambda>ps. map (dot (the (T ps))) ps) pts) = Inr avg
      \<and> length avg = n
      \<and> align est solve warp (imgs, pts) =
          Inr \<lparr>all_transforms = map T pts,
               transformed_images_points = map (\<lambda>ps. map (dot (the (T ps))) ps) pts,
               averaged_points = avg,
               all_transforms2 =
                 map (\<lambda>s. calculate_transform est [s ! 0, s ! 3, s ! 4] [avg ! 0, avg ! 3, avg ! 4])
                   (map (\<lambda>ps. map (dot (the (T ps))) ps) pts),
               all_transforms3 = map (\<lambda>s. solve [s ! 0, s ! 3, s ! 4] [avg ! 0, avg ! 3, avg ! 4]) pts,
               new_images =
                 map (\<lambda>(img, t). warp img t (output_width, output_height))
                   (zip imgs (map (\<lambda>s. solve [s ! 0, s ! 3, s ! 4] [avg ! 0, avg ! 3, avg ! 4]) pts)),
               written =
                 zip [0 ..< 0 + length (zip imgs (map (\<lambda>s. solve [s ! 0, s ! 3, s ! 4] [avg ! 0, avg ! 3, avg ! 4]) pts))]
                   (map (\<lambda>(img, t). (\<lambda>i. warp img t (output_width, output_height) i * 255))
                      (zip imgs (map (\<lambda>s. solve [s ! 0, s ! 3, s ! 4] [avg ! 0, avg ! 3, avg ! 4]) pts))),
               average_image =
                 (\<lambda>i. 0 + sum_list (map (\<lambda>(img, t). warp img t (output_width, output_height) i / real (length imgs))
                      (zip imgs (map (\<lambda>s. solve [s ! 0, s ! 3, s ! 4] [avg ! 0, avg ! 3, avg ! 4]) pts)))),
               written_average =
                 (\<lambda>i. (0 + sum_list (map (\<lambda>(img, t). warp img t (output_width, output_height) i / real (length imgs))
                      (zip imgs (map (\<lambda>s. solve [s ! 0, s ! 3, s ! 4] [avg ! 0, avg ! 3, avg ! 4]) pts)))) * 255)\<rparr>"
proof -
  from align_with_closed[OF ne len n5 ok[unfolded T_def], of "\<lambda>x. x" solve warp imgs]
  show ?thesis
    unfolding align_def T_def by (simp add: foldl_plus_pairs)
qed


lemma align_empty: "align est solve warp (imgs, []) = Inl IndexError"
  by (simp add: align_def align_with_def np_average_def triangle_def item_def)

lemma dot_identity: "dot identity_matrix p = p"
  by (cases p) (simp add: identity_matrix_def)

lemma map_dot_identity: "map (dot identity_matrix) ps = ps"
  by (induction ps) (simp_all add: dot_identity)

lemma steady_ok:
  "list_all (\<lambda>ps. calculate_transform steady_estimator [ps ! 0, ps ! 3]
                          [fst pupil_points, snd pupil_points] \<noteq> None) pts"
  by (induction pts) (simp_all add: calculate_transform_def steady_estimator_def)


section \<open>Pass 1\<close>

text \<open>
  Claim C2. The canvas is 600 by 800, so the pupil targets are
  \<open>(600 * 0.35, 800 * 0.4)\<close> and \<open>(600 * (1 - 0.35), 800 * 0.4)\<close> (the rounding of the
  products and the truncation to integers change nothing there). For every photograph
  of the batch, pass 1 calls the rigid estimator on slots 0 and 3 of its landmarks,
  completed by their third point, and on the two pupil targets, completed by theirs. The
  matrix found, with rows \<open>(a, b, c)\<close> and \<open>(d, e, f)\<close>, is applied to every landmark
  \<open>(x, y)\<close> of the photograph, which becomes \<open>(a x + b y + c, d x + e y + f)\<close>: one
  transformed landmark set per photograph, as long as the original one. No image is
  touched, and the rounding of the later steps plays no part.
\<close>

theorem pass1_aligns_pupils:
  fixes est :: estimator and pts :: "point list list"
  assumes "pts \<noteq> []"
    and "list_all (\<lambda>ps. length ps = n) pts"
    and "5 \<le> n"
    and "list_all (\<lambda>ps. calculate_transform est [ps ! 0, ps ! 3]
                          [fst pupil_points, snd pupil_points] \<noteq> None) pts"
  shows "pupil_points = ((600 * (35 / 100), 800 * (4 / 10)), (600 * (1 - 35 / 100), 800 * (4 / 10)))
       \<and> (\<exists>r. align_with fl est solve warp (imgs, pts) = Inr r
            \<and> length (all_transforms r) = length pts
            \<and> length (transformed_images_points r) = length pts
            \<and> (\<forall>i<length pts. \<exists>a b c d e f.
                  est [pts ! i ! 0, pts ! i ! 3,
                       calculate_third_equilateral_point (pts ! i ! 0) (pts ! i ! 3)]
                      [fst pupil_points, snd pupil_points,
                       calculate_third_equilateral_point (fst pupil_points) (snd pupil_points)]
                      False = Some ((a, b, c), (d, e, f))
                  \<and> all_transforms r ! i = Some ((a, b, c), (d, e, f))
                  \<and> length (transformed_images_points r ! i) = n
                  \<and> (\<forall>j<n. transformed_images_points r ! i ! j =
                         (a * fst (pts ! i ! j) + b * snd (pts ! i ! j) + c,
                          d * fst (pts ! i ! j) + e * snd (pts ! i ! j) + f))))"
proof -
  from align_with_closed[OF assms, of fl solve warp imgs] obtain r
    where r: "align_with fl est solve warp (imgs, pts) = Inr r"
      and t: "all_transforms r = map (\<lambda>ps. calculate_transform est [ps ! 0, ps ! 3]
                          [fst pupil_points, snd pupil_points]) pts"
      and s: "transformed_images_points r = map (\<lambda>ps. map (dot (the (calculate_transform est [ps ! 0, ps ! 3]
                          [fst pupil_points, snd pupil_points]))) ps) pts"
    by fastforce
  have each: "\<exists>a b c d e f.
                  est [pts ! i ! 0, pts ! i ! 3,
                       calculate_third_equilateral_point (pts ! i ! 0) (pts ! i ! 3)]
                      [fst pupil_points, snd pupil_points,
                       calculate_third_equilateral_point (fst pupil_points) (snd pupil_points)]
                      False = Some ((a, b, c), (d, e, f))
                  \<and> all_transforms r ! i = Some ((a, b, c), (d, e, f))
                  \<and> length (transformed_images_points r ! i) = n
                  \<and> (\<forall>j<n. transformed_images_points r ! i ! j =
                         (a * fst (pts ! i ! j) + b * snd (pts ! i ! j) + c,
                          d * fst (pts ! i ! j) + e * snd (pts ! i ! j) + f))" if i: "i < length pts" for i
  proof -
    have nn: "calculate_transform est [pts ! i ! 0, pts ! i ! 3]
                          [fst pupil_points, snd pupil_points] \<noteq> None"
      using assms(4) i by (simp add: list_all_length del: not_None_eq)
    then obtain m where m: "calculate_transform est [pts ! i ! 0, pts ! i ! 3]
                          [fst pupil_points, snd pupil_points] = Some m" by blast
    obtain a b c d e f where abc: "m = ((a, b, c), (d, e, f))" by (metis prod_cases3)
    have l: "length (pts ! i) = n" using assms(2) i by (simp add: list_all_length)
    have pt: "transformed_images_points r ! i ! j =
                         (a * fst (pts ! i ! j) + b * snd (pts ! i ! j) + c,
                          d * fst (pts ! i ! j) + e * snd (pts ! i ! j) + f)" if "j < n" for j
    proof -
      obtain x y where xy: "pts ! i ! j = (x, y)" by (cases "pts ! i ! j")
      show ?thesis using that i l m by (simp add: s abc xy)
    qed
    have "est [pts ! i ! 0, pts ! i ! 3,
                       calculate_third_equilateral_point (pts ! i ! 0) (pts ! i ! 3)]
                      [fst pupil_points, snd pupil_points,
                       calculate_third_equilateral_point (fst pupil_points) (snd pupil_points)]
                      False = Some ((a, b, c), (d, e, f))"
      using m by (simp add: calculate_transform_def abc)
    moreover have "all_transforms r ! i = Some ((a, b, c), (d, e, f))"
      using m i by (simp add: t abc)
    moreover have "length (transformed_images_points r ! i) = n"
      using i l by (simp add: s)
    ultimately show ?thesis using pt by blast
  qed
  have pp: "pupil_points = ((600 * (35 / 100), 800 * (4 / 10)), (600 * (1 - 35 / 100), 800 * (4 / 10)))"
    by (simp add: pupil_points_eq)
  have l1: "length (all_transforms r) = length pts" by (simp add: t)
  have l2: "length (transformed_images_points r) = length pts" by (simp add: s)
  show ?thesis
    using pp r l1 l2 each by blast
qed

theorem pass1_aligns_pupils_witness:
  "[wide_face] \<noteq> []
   \<and> list_all (\<lambda>ps. length ps = 5) [wide_face]
   \<and> (5::nat) \<le> 5
   \<and> list_all (\<lambda>ps. calculate_transform eye_estimator [ps ! 0, ps ! 3]
                          [fst pupil_points, snd pupil_points] \<noteq> None) [wide_face]
   \<and> (\<exists>r. align_with float32 eye_estimator steady_solver still_warp ([grey], [wide_face]) = Inr r
          \<and> all_transforms r = [Some ((3 / 4, 0, 90), (0, 3 / 4, 95))]
          \<and> transformed_images_points r
              = [[(210, 320), (255, 323), (345, 323), (390, 320), (300, 470)]])"
proof -
  have h1: "[wide_face] \<noteq> []" by simp
  have h2: "list_all (\<lambda>ps. length ps = 5) [wide_face]" by (simp add: wide_face_def)
  have h3: "(5::nat) \<le> 5" by simp
  have h4: "list_all (\<lambda>ps. calculate_transform eye_estimator [ps ! 0, ps ! 3]
                          [fst pupil_points, snd pupil_points] \<noteq> None) [wide_face]"
    by (simp add: calculate_transform_def eye_estimator_def)
  from pass1_aligns_pupils[OF h1 h2 h3 h4, of float32 steady_solver still_warp "[grey]"]
  obtain r where r: "align_with float32 eye_estimator steady_solver still_warp ([grey], [wide_face]) = Inr r"
    and l1: "length (all_transforms r) = 1" and l2: "length (transformed_images_points r) = 1"
    and e: "\<exists>a b c d e f. eye_estimator
              [wide_face ! 0, wide_face ! 3,
               calculate_third_equilateral_point (wide_face ! 0) (wide_face ! 3)]
              [fst pupil_points, snd pupil_points,
               calculate_third_equilateral_point (fst pupil_points) (snd pupil_points)]
              False = Some ((a, b, c), (d, e, f))
          \<and> all_transforms r ! 0 = Some ((a, b, c), (d, e, f))
          \<and> length (transformed_images_points r ! 0) = 5
          \<and> (\<forall>j<5. transformed_images_points r ! 0 ! j =
                 (a * fst (wide_face ! j) + b * snd (wide_face ! j) + c,
                  d * fst (wide_face ! j) + e * snd (wide_face ! j) + f))"
    by force
  from e have a: "all_transforms r ! 0 = Some ((3 / 4, 0, 90), (0, 3 / 4, 95))"
    and l5: "length (transformed_images_points r ! 0) = 5"
    and pj: "\<forall>j<5. transformed_images_points r ! 0 ! j =
                 (3 / 4 * fst (wide_face ! j) + 0 * snd (wide_face ! j) + 90,
                  0 * fst (wide_face ! j) + 3 / 4 * snd (wide_face ! j) + 95)"
    by (auto simp: eye_estimator_def)
  have b: "transformed_images_points r ! 0 = [(210, 320), (255, 323), (345, 323), (390, 320), (300, 470)]"
  proof (rule nth_equalityI)
    show "length (transformed_images_points r ! 0)
            = length [(210::real, 320::real), (255, 323), (345, 323), (390, 320), (300, 470)]"
      using l5 by simp
    fix j assume "j < length (transformed_images_points r ! 0)"
    then have "j < 5" using l5 by simp
    then consider "j = 0" | "j = 1" | "j = 2" | "j = 3" | "j = 4" by linarith
    then show "transformed_images_points r ! 0 ! j
            = [(210, 320), (255, 323), (345, 323), (390, 320), (300, 470)] ! j"
      using pj by cases (simp_all add: wide_face_def)
  qed
  have "all_transforms r = [Some ((3 / 4, 0, 90), (0, 3 / 4, 95))]"
    using l1 a by (cases "all_transforms r") auto
  moreover have "transformed_images_points r
              = [[(210, 320), (255, 323), (345, 323), (390, 320), (300, 470)]]"
    using l2 b by (cases "transformed_images_points r") auto
  ultimately show ?thesis using h1 h2 h3 h4 r by blast
qed

section \<open>Averaging\<close>

text \<open>
  Claim C6, as stated, fails for one photograph: the transformed landmarks are doubles
  and the average is a \<^verbatim>\<open>float32\<close> array. With a pass-1 matrix that shifts by \<open>2\<^sup>-\<^sup>2\<^sup>0\<close>
  of a pixel the left pupil goes to \<open>(200 + 2\<^sup>-\<^sup>2\<^sup>0, 300)\<close> and its average is
  \<open>(200, 300)\<close>.
\<close>

theorem one_photo_average_counterexample:
  "\<exists>r. align_with float32 shift_estimator steady_solver still_warp ([grey], [sample_face]) = Inr r
      \<and> transformed_images_points r ! 0 ! 0 = (200 + 1 / 2 ^ 20, 300)
      \<and> averaged_points r ! 0 = (200, 300)
      \<and> averaged_points r \<noteq> transformed_images_points r ! 0"
proof -
  have h1: "[sample_face] \<noteq> []" by simp
  have h2: "list_all (\<lambda>ps. length ps = 5) [sample_face]" by (simp add: sample_face_def)
  have h3: "(5::nat) \<le> 5" by simp
  have h4: "list_all (\<lambda>ps. calculate_transform shift_estimator [ps ! 0, ps ! 3]
                          [fst pupil_points, snd pupil_points] \<noteq> None) [sample_face]"
    by (simp add: calculate_transform_def shift_estimator_def)
  from align_with_closed[OF h1 h2 h3 h4, of float32 steady_solver still_warp "[grey]"] obtain r
    where r: "align_with float32 shift_estimator steady_solver still_warp ([grey], [sample_face]) = Inr r"
      and s: "transformed_images_points r = [map (dot (the (calculate_transform shift_estimator
                  [sample_face ! 0, sample_face ! 3] [fst pupil_points, snd pupil_points]))) sample_face]"
      and a: "np_average float32 (transformed_images_points r) = Inr (averaged_points r)"
    by fastforce
  have m: "the (calculate_transform shift_estimator
                  [sample_face ! 0, sample_face ! 3] [fst pupil_points, snd pupil_points])
            = ((1, 0, 1 / 2 ^ 20), (0, 1, 0))"
    by (simp add: calculate_transform_def shift_estimator_def)
  have s': "transformed_images_points r = [map (dot ((1, 0, 1 / 2 ^ 20), (0, 1, 0))) sample_face]"
    unfolding s m ..
  have t0: "transformed_images_points r ! 0 ! 0 = (200 + 1 / 2 ^ 20, 300)"
    by (simp add: s' sample_face_def)
  have "averaged_points r = map (\<lambda>(x, y). (float32 (float32 x), float32 (float32 y)))
            (transformed_images_points r ! 0)"
    using a by (simp add: s' np_average_single)
  then have "averaged_points r ! 0 = (float32 (209715201 / 1048576), float32 300)"
    by (simp add: s' sample_face_def float32_idem)
  then have a0: "averaged_points r ! 0 = (200, 300)"
    by (simp only: float32_200_shifted float32_300)
  have "averaged_points r ! 0 \<noteq> transformed_images_points r ! 0 ! 0"
    unfolding a0 t0 by simp
  then have ne: "averaged_points r \<noteq> transformed_images_points r ! 0" by auto
  show ?thesis using r t0 a0 ne by blast
qed

text \<open>
  Claim C6, amended. Slot by slot, the averaged landmarks are the \<^verbatim>\<open>float32\<close> mean of
  the transformed landmarks of pass 1: every coordinate is cast to \<^verbatim>\<open>float32\<close>, the casts
  are added one photograph after the other, every sum rounded, and the total is divided
  by the number of photographs and rounded. For a batch of one photograph the averaged
  landmarks are that photograph's transformed landmarks cast to \<^verbatim>\<open>float32\<close>.
\<close>

theorem averaged_points_are_float32_means:
  fixes est :: estimator and pts :: "point list list"
  assumes "pts \<noteq> []"
    and "list_all (\<lambda>ps. length ps = n) pts"
    and "5 \<le> n"
    and "list_all (\<lambda>ps. calculate_transform est [ps ! 0, ps ! 3]
                          [fst pupil_points, snd pupil_points] \<noteq> None) pts"
  shows "\<exists>r. align_with float32 est solve warp (imgs, pts) = Inr r
          \<and> length (transformed_images_points r) = length pts
          \<and> length (averaged_points r) = n
          \<and> (\<forall>j<n. averaged_points r ! j =
                (float32 (foldl (\<lambda>a t. float32 (a + float32 (fst (t ! j))))
                           (float32 (fst (hd (transformed_images_points r) ! j)))
                           (tl (transformed_images_points r)) / real (length pts)),
                 float32 (foldl (\<lambda>a t. float32 (a + float32 (snd (t ! j))))
                           (float32 (snd (hd (transformed_images_points r) ! j)))
                           (tl (transformed_images_points r)) / real (length pts))))
          \<and> (length pts = 1 \<longrightarrow>
                averaged_points r
                  = map (\<lambda>(x, y). (float32 x, float32 y)) (transformed_images_points r ! 0))"
proof -
  let ?sets = "map (\<lambda>ps. map (dot (the (calculate_transform est [ps ! 0, ps ! 3]
                          [fst pupil_points, snd pupil_points]))) ps) pts"
  from align_with_closed[OF assms, of float32 solve warp imgs] obtain r
    where r: "align_with float32 est solve warp (imgs, pts) = Inr r"
      and s: "transformed_images_points r = ?sets"
      and a: "np_average float32 ?sets = Inr (averaged_points r)"
    by fastforce
  have sets_ne: "?sets \<noteq> []" using assms(1) by simp
  have sets_len: "list_all (\<lambda>t. length t = n) ?sets"
    using assms(2) by (induction pts) auto
  from np_average_closed[OF sets_ne sets_len, of float32] a
  have la: "length (averaged_points r) = n"
    and means: "\<forall>j<n. averaged_points r ! j =
             (float32 (foldl (\<lambda>a t. float32 (a + float32 (fst (t ! j))))
                        (float32 (fst (hd ?sets ! j))) (tl ?sets) / real (length ?sets)),
              float32 (foldl (\<lambda>a t. float32 (a + float32 (snd (t ! j))))
                        (float32 (snd (hd ?sets ! j))) (tl ?sets) / real (length ?sets)))"
    by auto
  have one: "averaged_points r
                  = map (\<lambda>(x, y). (float32 x, float32 y)) (transformed_images_points r ! 0)"
    if "length pts = 1"
  proof -
    from that obtain ps where "pts = [ps]" by (cases pts) auto
    then show ?thesis using a s by (simp add: np_average_single float32_idem)
  qed
  have ls: "length (transformed_images_points r) = length pts" by (simp add: s)
  have means': "\<forall>j<n. averaged_points r ! j =
                (float32 (foldl (\<lambda>a t. float32 (a + float32 (fst (t ! j))))
                           (float32 (fst (hd (transformed_images_points r) ! j)))
                           (tl (transformed_images_points r)) / real (length pts)),
                 float32 (foldl (\<lambda>a t. float32 (a + float32 (snd (t ! j))))
                           (float32 (snd (hd (transformed_images_points r) ! j)))
                           (tl (transformed_images_points r)) / real (length pts)))"
    using means unfolding s[symmetric] ls .
  show ?thesis
    using r ls la means' one by blast
qed

theorem averaged_points_are_float32_means_witness:
  "[sample_face] \<noteq> []
   \<and> list_all (\<lambda>ps. length ps = 5) [sample_face]
   \<and> (5::nat) \<le> 5
   \<and> list_all (\<lambda>ps. calculate_transform steady_estimator [ps ! 0, ps ! 3]
                          [fst pupil_points, snd pupil_points] \<noteq> None) [sample_face]
   \<and> (\<exists>r. align_with float32 steady_estimator steady_solver still_warp ([grey], [sample_face]) = Inr r
          \<and> length (averaged_points r) = 5
          \<and> averaged_points r
              = map (\<lambda>(x, y). (float32 x, float32 y)) (transformed_images_points r ! 0))"
proof -
  have h1: "[sample_face] \<noteq> []" by simp
  have h2: "list_all (\<lambda>ps. length ps = 5) [sample_face]" by (simp add: sample_face_def)
  have h3: "(5::nat) \<le> 5" by simp
  have h4: "list_all (\<lambda>ps. calculate_transform steady_estimator [ps ! 0, ps ! 3]
                          [fst pupil_points, snd pupil_points] \<noteq> None) [sample_face]"
    by (rule steady_ok)
  from averaged_points_are_float32_means[OF h1 h2 h3 h4, of steady_solver still_warp "[grey]"]
  obtain r where r: "align_with float32 steady_estimator steady_solver still_warp ([grey], [sample_face]) = Inr r"
    and l: "length (averaged_points r) = 5"
    and a: "averaged_points r
              = map (\<lambda>(x, y). (float32 x, float32 y)) (transformed_images_points r ! 0)"
    by force
  then show ?thesis using h1 h2 h3 h4 by blast
qed

section \<open>Pass 2\<close>

text \<open>
  Claim C10. The transforms of pass 2 reach no output: the run without the second loop
  ends with the same error, or with the same final transforms, the same images shown and
  written and the same average.
\<close>

theorem pass2_changes_no_output:
  "map_sum id outputs_of (align est solve warp loaded) = align_without_pass2 est solve warp loaded"
proof (cases "pass1 est pupil_points (snd loaded)")
  case (Inl e1)
  then show ?thesis by (simp add: align_def align_with_def align_without_pass2_def)
next
  case (Inr p)
  obtain ts sets where p: "p = (ts, sets)" by (cases p)
  show ?thesis
  proof (cases "np_average (\<lambda>x. x) sets")
    case (Inl e2)
    then show ?thesis using Inr p by (simp add: align_def align_with_def align_without_pass2_def)
  next
    case avg: (Inr avg)
    show ?thesis
    proof (cases "pass2 est avg sets")
      case (Inl e3)
      from pass2_error[OF Inl] have e3: "e3 = IndexError"
        and short: "length avg < 5 \<or> \<not> list_all (\<lambda>s. 5 \<le> length s) sets" by simp_all
      have "length avg < 5"
      proof (rule ccontr)
        assume "\<not> length avg < 5"
        then have "list_all (\<lambda>s. 5 \<le> length s) sets"
          using np_average_lengths[OF avg] by (auto simp: list_all_iff)
        with short \<open>\<not> length avg < 5\<close> show False by simp
      qed
      then have "triangle avg = Inl IndexError" by (rule triangle_out)
      then show ?thesis using Inr p avg Inl e3 by (simp add: align_def align_with_def align_without_pass2_def)
    next
      case t2: (Inr t2)
      show ?thesis
      proof (cases "triangle avg")
        case (Inl e4)
        then show ?thesis using Inr p avg t2 by (simp add: align_def align_with_def align_without_pass2_def)
      next
        case dest: (Inr dest)
        show ?thesis
        proof (cases "pass3 solve dest (snd loaded)")
          case (Inl e5)
          then show ?thesis using Inr p avg t2 dest by (simp add: align_def align_with_def align_without_pass2_def)
        next
          case t3: (Inr t3)
          then show ?thesis using Inr p avg t2 dest
            by (simp add: align_def align_with_def align_without_pass2_def Let_def split_beta outputs_of_def)
        qed
      qed
    qed
  qed
qed

section \<open>Pass 3 and the warp\<close>

text \<open>
  Claim C3. The final transform of a photograph is the affine solver's answer for slots
  0, 3 and 4 of the photograph's original landmarks and slots 0, 3 and 4 of the averaged
  landmarks; the transforms of passes 1 and 2 are no part of it. The image is warped
  once, with that transform, onto the canvas, and written under its number.
\<close>

theorem final_transform_is_one_affine_solve:
  fixes est :: estimator and pts :: "point list list"
  assumes "pts \<noteq> []"
    and "list_all (\<lambda>ps. length ps = n) pts"
    and "5 \<le> n"
    and "list_all (\<lambda>ps. calculate_transform est [ps ! 0, ps ! 3]
                          [fst pupil_points, snd pupil_points] \<noteq> None) pts"
    and "length imgs = length pts"
  shows "\<exists>r. align est solve warp (imgs, pts) = Inr r
          \<and> length (all_transforms3 r) = length pts
          \<and> length (new_images r) = length pts
          \<and> (\<forall>i<length pts.
                all_transforms3 r ! i =
                  solve [pts ! i ! 0, pts ! i ! 3, pts ! i ! 4]
                        [averaged_points r ! 0, averaged_points r ! 3, averaged_points r ! 4]
              \<and> new_images r ! i = warp (imgs ! i) (all_transforms3 r ! i) (output_width, output_height)
              \<and> written r ! i = (i, \<lambda>k. (new_images r ! i) k * 255))"
proof -
  from align_closed[OF assms(1-4), of solve warp imgs] obtain r
    where r: "align est solve warp (imgs, pts) = Inr r"
      and t3: "all_transforms3 r = map (\<lambda>s. solve [s ! 0, s ! 3, s ! 4]
                 [averaged_points r ! 0, averaged_points r ! 3, averaged_points r ! 4]) pts"
      and ni: "new_images r = map (\<lambda>(img, t). warp img t (output_width, output_height))
                 (zip imgs (all_transforms3 r))"
      and wr: "written r = zip [0 ..< 0 + length (zip imgs (all_transforms3 r))]
                   (map (\<lambda>(img, t). (\<lambda>i. warp img t (output_width, output_height) i * 255))
                      (zip imgs (all_transforms3 r)))"
    by fastforce
  have l3: "length (all_transforms3 r) = length pts" by (simp add: t3)
  have ln: "length (new_images r) = length pts" by (simp add: ni l3 assms(5))
  have each: "all_transforms3 r ! i =
                  solve [pts ! i ! 0, pts ! i ! 3, pts ! i ! 4]
                        [averaged_points r ! 0, averaged_points r ! 3, averaged_points r ! 4]
              \<and> new_images r ! i = warp (imgs ! i) (all_transforms3 r ! i) (output_width, output_height)
              \<and> written r ! i = (i, \<lambda>k. (new_images r ! i) k * 255)" if i: "i < length pts" for i
  proof -
    have a: "all_transforms3 r ! i =
                  solve [pts ! i ! 0, pts ! i ! 3, pts ! i ! 4]
                        [averaged_points r ! 0, averaged_points r ! 3, averaged_points r ! 4]"
      using i by (simp add: t3)
    have b: "new_images r ! i = warp (imgs ! i) (all_transforms3 r ! i) (output_width, output_height)"
      using i assms(5) l3 by (simp add: ni)
    have c: "written r ! i = (i, \<lambda>k. (new_images r ! i) k * 255)"
      using i assms(5) l3 by (simp add: wr b)
    show ?thesis using a b c by simp
  qed
  show ?thesis using r l3 ln each by blast
qed

theorem final_transform_is_one_affine_solve_witness:
  "[sample_face] \<noteq> []
   \<and> list_all (\<lambda>ps. length ps = 5) [sample_face]
   \<and> (5::nat) \<le> 5
   \<and> list_all (\<lambda>ps. calculate_transform steady_estimator [ps ! 0, ps ! 3]
                          [fst pupil_points, snd pupil_points] \<noteq> None) [sample_face]
   \<and> length [grey] = length [sample_face]
   \<and> (\<exists>r. align steady_estimator steady_solver still_warp ([grey], [sample_face]) = Inr r
          \<and> all_transforms3 r = [identity_matrix]
          \<and> new_images r = [grey])"
proof -
  have h1: "[sample_face] \<noteq> []" by simp
  have h2: "list_all (\<lambda>ps. length ps = 5) [sample_face]" by (simp add: sample_face_def)
  have h3: "(5::nat) \<le> 5" by simp
  have h4: "list_all (\<lambda>ps. calculate_transform steady_estimator [ps ! 0, ps ! 3]
                          [fst pupil_points, snd pupil_points] \<noteq> None) [sample_face]"
    by (rule steady_ok)
  have h5: "length [grey] = length [sample_face]" by simp
  from final_transform_is_one_affine_solve[OF h1 h2 h3 h4 h5, of steady_solver still_warp]
  obtain r where r: "align steady_estimator steady_solver still_warp ([grey], [sample_face]) = Inr r"
    and l1: "length (all_transforms3 r) = 1" and l2: "length (new_images r) = 1"
    and a: "all_transforms3 r ! 0 = identity_matrix"
    and b: "new_images r ! 0 = grey"
    by (force simp: steady_solver_def still_warp_def)
  have "all_transforms3 r = [identity_matrix]"
    using l1 a by (cases "all_transforms3 r") auto
  moreover have "new_images r = [grey]"
    using l2 b by (cases "new_images r") auto
  ultimately show ?thesis using h1 h2 h3 h4 h5 r by blast
qed

text \<open>
  Claim C7. The affine solve of the specification, on three source points that are not
  on one line, returns a transform that sends each source point to its target point:
  the error is zero, so below \<open>10\<^sup>-\<^sup>6\<close>.
\<close>

theorem affine_solve_maps_sources_to_targets:
  assumes "\<not> collinear [p, q, r]"
  shows "\<exists>T. affine_solve (p, q, r) (p', q', r') = Inr T
          \<and> dot T p = p' \<and> dot T q = q' \<and> dot T r = r'
          \<and> distance (dot T p) p' < 1 / 10 ^ 6
          \<and> distance (dot T q) q' < 1 / 10 ^ 6
          \<and> distance (dot T r) r' < 1 / 10 ^ 6"
proof -
  obtain px py qx qy rx ry where p: "p = (px, py)" and q: "q = (qx, qy)" and r: "r = (rx, ry)"
    by (cases p, cases q, cases r) auto
  obtain px' py' qx' qy' rx' ry' where p': "p' = (px', py')" and q': "q' = (qx', qy')"
    and r': "r' = (rx', ry')"
    by (cases p', cases q', cases r') auto
  define det where "det = (qx - px) * (ry - py) - (qy - py) * (rx - px)"
  have nz: "det \<noteq> 0" using assms by (simp add: p q r det_def)
  define a where "a = ((qx' - px') * (ry - py) - (rx' - px') * (qy - py)) / det"
  define b where "b = ((qx - px) * (rx' - px') - (rx - px) * (qx' - px')) / det"
  define d where "d = ((qy' - py') * (ry - py) - (ry' - py') * (qy - py)) / det"
  define e where "e = ((qx - px) * (ry' - py') - (rx - px) * (qy' - py')) / det"
  define T :: transform where "T = ((a, b, px' - a * px - b * py), (d, e, py' - d * px - e * py))"
  have solve: "affine_solve (p, q, r) (p', q', r') = Inr T"
    using nz by (simp add: p q r p' q' r' Let_def det_def[symmetric] a_def b_def d_def e_def T_def)
  note cx = cramer_x[OF nz det_def, of "qx' - px'" "rx' - px'", folded a_def b_def]
  note cy = cramer_x[OF nz det_def, of "qy' - py'" "ry' - py'", folded d_def e_def]
  have tp: "dot T p = p'" by (simp add: T_def p p')
  have tq: "dot T q = q'"
  proof -
    have "a * qx + b * qy + (px' - a * px - b * py) = a * (qx - px) + b * (qy - py) + px'"
      by (simp add: algebra_simps)
    moreover have "d * qx + e * qy + (py' - d * px - e * py) = d * (qx - px) + e * (qy - py) + py'"
      by (simp add: algebra_simps)
    ultimately show ?thesis using cx(1) cy(1) by (simp add: T_def q q')
  qed
  have tr: "dot T r = r'"
  proof -
    have "a * rx + b * ry + (px' - a * px - b * py) = a * (rx - px) + b * (ry - py) + px'"
      by (simp add: algebra_simps)
    moreover have "d * rx + e * ry + (py' - d * px - e * py) = d * (rx - px) + e * (ry - py) + py'"
      by (simp add: algebra_simps)
    ultimately show ?thesis using cx(2) cy(2) by (simp add: T_def r r')
  qed
  show ?thesis using solve tp tq tr by (simp add: distance_self)
qed

theorem affine_solve_maps_sources_to_targets_witness:
  "\<not> collinear [(200, 300), (400, 300), (300, 500)]
   \<and> (\<exists>T. affine_solve ((200, 300), (400, 300), (300, 500)) ((210, 320), (390, 320), (300, 480)) = Inr T
          \<and> dot T (200, 300) = (210, 320) \<and> dot T (400, 300) = (390, 320)
          \<and> dot T (300, 500) = (300, 480)
          \<and> distance (dot T (200, 300)) (210, 320) < 1 / 10 ^ 6
          \<and> distance (dot T (400, 300)) (390, 320) < 1 / 10 ^ 6
          \<and> distance (dot T (300, 500)) (300, 480) < 1 / 10 ^ 6)"
proof -
  have h: "\<not> collinear [(200, 300), (400, 300), (300, 500)]" by simp
  from affine_solve_maps_sources_to_targets[OF h, of "(210, 320)" "(390, 320)" "(300, 480)"] h
  show ?thesis by blast
qed

section \<open>The average image\<close>



text \<open>
  Claim C9, as stated, fails: ten photographs, white all over and warped onto
  themselves, leave \<open>1 + 2\<^sup>-\<^sup>2\<^sup>3\<close> in the average, since the ten \<^verbatim>\<open>float32\<close> additions of
  the \<^verbatim>\<open>float32\<close> tenth round upwards.
\<close>

theorem ten_white_photos_counterexample:
  "unit_range white
   \<and> keeps_unit_range still_warp (output_width, output_height)
   \<and> (\<exists>r. align_with float32 steady_estimator steady_solver still_warp
               (replicate 10 white, replicate 10 sample_face) = Inr r
          \<and> average_image r (0, 0, 0) = 8388609 / 8388608
          \<and> 1 < average_image r (0, 0, 0))"
proof -
  have u: "unit_range white" unfolding unit_range_def white_def by simp
  have k: "keeps_unit_range still_warp (output_width, output_height)"
    unfolding keeps_unit_range_def still_warp_def by blast
  have h1: "replicate 10 sample_face \<noteq> []" by simp
  have h2: "list_all (\<lambda>ps. length ps = 5) (replicate 10 sample_face)"
    by (simp add: list_all_iff sample_face_def)
  have h3: "(5::nat) \<le> 5" by simp
  have h4: "list_all (\<lambda>ps. calculate_transform steady_estimator [ps ! 0, ps ! 3]
                          [fst pupil_points, snd pupil_points] \<noteq> None) (replicate 10 sample_face)"
    by (rule steady_ok)
  from align_with_closed[OF h1 h2 h3 h4, of float32 steady_solver still_warp "replicate 10 white"]
  obtain r where r: "align_with float32 steady_estimator steady_solver still_warp
               (replicate 10 white, replicate 10 sample_face) = Inr r"
      and t3: "all_transforms3 r = map (\<lambda>s. steady_solver [s ! 0, s ! 3, s ! 4]
                 [averaged_points r ! 0, averaged_points r ! 3, averaged_points r ! 4])
                 (replicate 10 sample_face)"
      and av: "average_image r =
                 (\<lambda>i. foldl (\<lambda>s (img, t). float32 (s + float32
                          (still_warp img t (output_width, output_height) i
                             / real (length (replicate 10 white))))) 0
                      (zip (replicate 10 white) (all_transforms3 r)))"
    by fastforce
  have z: "zip (replicate 10 white) (all_transforms3 r) = replicate 10 (white, identity_matrix)"
    by (simp add: t3 steady_solver_def zip_replicate)
  have "average_image r (0, 0, 0) = white_level 10"
    unfolding av z foldl_replicate white_level_def
    by (simp add: still_warp_def white_def)
  then have a: "average_image r (0, 0, 0) = 8388609 / 8388608" by (simp only: ten_tenths)
  then have b: "1 < average_image r (0, 0, 0)" by simp
  show ?thesis using u k r a b by blast
qed

text \<open>
  Claim C9, amended. When every input buffer has its samples in \<open>[0, 1]\<close> and the warp
  keeps such buffers so, the average image has its samples in \<open>[0, 1]\<close> in exact
  arithmetic; with the \<^verbatim>\<open>float32\<close> rounding of the script every sample lies between 0 and
  what as many photographs, white all over, leave in the average.
\<close>

theorem average_image_bounds:
  fixes est :: estimator and pts :: "point list list" and warp :: warper
  assumes "pts \<noteq> []"
    and "list_all (\<lambda>ps. length ps = n) pts"
    and "5 \<le> n"
    and "list_all (\<lambda>ps. calculate_transform est [ps ! 0, ps ! 3]
                          [fst pupil_points, snd pupil_points] \<noteq> None) pts"
    and "length imgs = length pts"
    and inputs: "list_all unit_range imgs"
    and warps: "keeps_unit_range warp (output_width, output_height)"
  shows "(\<exists>r. align est solve warp (imgs, pts) = Inr r \<and> unit_range (average_image r))
       \<and> (\<exists>r. align_with float32 est solve warp (imgs, pts) = Inr r
             \<and> (\<forall>k. 0 \<le> average_image r k \<and> average_image r k \<le> white_level (length imgs)))"
proof -
  have c: "0 < length imgs" using assms(1,5) by simp
  have warped: "0 \<le> warp img t (output_width, output_height) k
              \<and> warp img t (output_width, output_height) k \<le> 1"
    if "(img, t) \<in> set (zip imgs ts)" for img t k and ts :: "transform list"
  proof -
    have "img \<in> set imgs" using that by (rule set_zip_leftD)
    then have "unit_range img" using inputs by (simp add: list_all_iff)
    then have "unit_range (warp img t (output_width, output_height))"
      using warps unfolding keeps_unit_range_def by blast
    then show ?thesis unfolding unit_range_def by blast
  qed
  from align_closed[OF assms(1-4), of solve warp imgs] obtain r
    where r: "align est solve warp (imgs, pts) = Inr r"
      and av: "average_image r =
                 (\<lambda>i. 0 + sum_list (map (\<lambda>(img, t). warp img t (output_width, output_height) i / real (length imgs))
                      (zip imgs (all_transforms3 r))))"
    by fastforce
  have exact: "0 \<le> average_image r k \<and> average_image r k \<le> 1" for k
  proof -
    let ?terms = "map (\<lambda>(img, t). warp img t (output_width, output_height) k / real (length imgs))
                      (zip imgs (all_transforms3 r))"
    have "list_all (\<lambda>x. 0 \<le> x \<and> x \<le> 1 / real (length imgs)) ?terms"
      using warped[of _ _ "all_transforms3 r" k] c
      by (auto simp: list_all_iff divide_right_mono)
    from sum_list_unit_bounds[OF this]
    have lo: "0 \<le> sum_list ?terms"
      and hi: "sum_list ?terms \<le> real (length ?terms) * (1 / real (length imgs))" by simp_all
    have "length ?terms \<le> length imgs" by simp
    then have "real (length ?terms) * (1 / real (length imgs)) \<le> 1"
      using c by (simp add: field_simps)
    with lo hi show ?thesis by (simp add: av)
  qed
  have first: "\<exists>r. align est solve warp (imgs, pts) = Inr r \<and> unit_range (average_image r)"
    using r exact unfolding unit_range_def by blast
  from align_with_closed[OF assms(1-4), of float32 solve warp imgs] obtain r'
    where r': "align_with float32 est solve warp (imgs, pts) = Inr r'"
      and t3: "length (all_transforms3 r') = length pts"
      and av': "average_image r' =
                 (\<lambda>i. foldl (\<lambda>s (img, t). float32 (s + float32
                          (warp img t (output_width, output_height) i / real (length imgs)))) 0
                      (zip imgs (all_transforms3 r')))"
    by fastforce
  have rounded: "0 \<le> average_image r' k \<and> average_image r' k \<le> white_level (length imgs)" for k
  proof -
    let ?pairs = "zip imgs (all_transforms3 r')"
    have la: "list_all (\<lambda>(img, t). 0 \<le> warp img t (output_width, output_height) k
                \<and> warp img t (output_width, output_height) k \<le> 1) ?pairs"
      using warped[of _ _ "all_transforms3 r'" k] by (auto simp: list_all_iff)
    have lp: "length ?pairs = length imgs" using t3 assms(5) by simp
    from accumulate_bounds[of "\<lambda>img t. warp img t (output_width, output_height) k" ?pairs 0 0
        "real (length imgs)", OF la]
    show ?thesis by (simp add: av' white_level_def t3 assms(5))
  qed
  have second: "\<exists>r. align_with float32 est solve warp (imgs, pts) = Inr r
             \<and> (\<forall>k. 0 \<le> average_image r k \<and> average_image r k \<le> white_level (length imgs))"
    using r' rounded by blast
  show ?thesis using first second by blast
qed

theorem average_image_bounds_witness:
  "[sample_face, sample_face] \<noteq> []
   \<and> list_all (\<lambda>ps. length ps = 5) [sample_face, sample_face]
   \<and> (5::nat) \<le> 5
   \<and> list_all (\<lambda>ps. calculate_transform steady_estimator [ps ! 0, ps ! 3]
                          [fst pupil_points, snd pupil_points] \<noteq> None) [sample_face, sample_face]
   \<and> length [grey, white] = length [sample_face, sample_face]
   \<and> list_all unit_range [grey, white]
   \<and> keeps_unit_range still_warp (output_width, output_height)
   \<and> (\<exists>r. align steady_estimator steady_solver still_warp ([grey, white], [sample_face, sample_face]) = Inr r
          \<and> unit_range (average_image r))
   \<and> (\<exists>r. align_with float32 steady_estimator steady_solver still_warp
               ([grey, white], [sample_face, sample_face]) = Inr r
          \<and> (\<forall>k. 0 \<le> average_image r k \<and> average_image r k \<le> white_level (length [grey, white])))"
proof -
  have h1: "[sample_face, sample_face] \<noteq> []" by simp
  have h2: "list_all (\<lambda>ps. length ps = 5) [sample_face, sample_face]" by (simp add: sample_face_def)
  have h3: "(5::nat) \<le> 5" by simp
  have h4: "list_all (\<lambda>ps. calculate_transform steady_estimator [ps ! 0, ps ! 3]
                          [fst pupil_points, snd pupil_points] \<noteq> None) [sample_face, sample_face]"
    by (rule steady_ok)
  have h5: "length [grey, white] = length [sample_face, sample_face]" by simp
  have g: "unit_range grey" unfolding unit_range_def grey_def by simp
  have w: "unit_range white" unfolding unit_range_def white_def by simp
  have h6: "list_all unit_range [grey, white]" using g w by simp
  have h7: "keeps_unit_range still_warp (output_width, output_height)"
    unfolding keeps_unit_range_def still_warp_def by blast
  from average_image_bounds[OF h1 h2 h3 h4 h5 h6 h7, of steady_solver]
  show ?thesis using h1 h2 h3 h4 h5 h6 h7 by blast
qed

section \<open>Errors\<close>




text \<open>
  Claim C5, as stated, fails: a run on no photograph at all ends with
  \<^verbatim>\<open>IndexError\<close>, not with \<open>EmptyBatchError\<close>.
\<close>

theorem empty_batch_counterexample:
  "main steady_estimator steady_solver still_warp [] = Inl IndexError
   \<and> main steady_estimator steady_solver still_warp [] \<noteq> Inl EmptyBatchError"
  by (simp add: main_def load_data_def align_empty)

text \<open>
  Claim C5, amended. When no photograph has five coordinates, the run has nothing to
  guard it: passes 1 and 2 iterate over nothing, the average is taken of
  nothing, and the run stops with \<^verbatim>\<open>IndexError\<close> when slot 0 of the average is read,
  before pass 3 and before any image is written.
\<close>

theorem empty_batch_ends_in_index_error:
  assumes "snd (load_data files) = []"
  shows "main est solve warp files = Inl IndexError"
proof -
  have "load_data files = (fst (load_data files), [])" using assms by (simp add: prod_eq_iff)
  then show ?thesis unfolding main_def by (metis align_empty)
qed

theorem empty_batch_ends_in_index_error_witness:
  "snd (load_data [(\<lambda>i. 0, [(1, 2)])]) = []
   \<and> main steady_estimator steady_solver still_warp [(\<lambda>i. 0, [(1, 2)])] = Inl IndexError"
proof -
  have h: "snd (load_data [(\<lambda>i. 0, [(1, 2)])]) = []" by (simp add: load_data_def)
  from empty_batch_ends_in_index_error[OF h] h show ?thesis by blast
qed

end
